theory Spec2Isabelle
  imports Main
begin

section \<open>Data model of the lint server\<close>

text \<open>
  The language server of the extension (the fix-capable server with the two request
  handlers \<open>RunTSLintRequest\<close> and \<open>FixTSLintRequest\<close>) is embedded as state-passing
  functions over a record of its three module-level caches and the document store.
  Everything that lives outside the server (the URI parser, the module resolver, the file
  system, the semver test, the tslint library) is a field of the record \<open>world\<close>.
\<close>

subsection \<open>Lint failures, diagnostics and text edits\<close>

record position =
  line :: nat
  character :: nat

record lsp_range =
  range_start :: position
  range_end :: position

text \<open>A tslint \<open>Replacement\<close>: the getters \<open>start\<close>, \<open>end\<close> and \<open>text\<close>.\<close>

record replacement =
  repl_start :: int
  repl_end :: int
  repl_text :: string

text \<open>
  The three shapes of a fix the handler tells apart: an object with a \<open>replacements\<close>
  property (tslint 4), an array of replacements, or one replacement (tslint 5).
\<close>

datatype lint_fix =
    FixObject "replacement list"
  | FixArray "replacement list"
  | FixSingle replacement

text \<open>
  A \<open>RuleFailure\<close>. \<open>getRuleName\<close> is \<open>None\<close> for \<open>undefined\<close>. \<open>getFix\<close> is
  \<open>None\<close> when the failure has no \<open>getFix\<close> method (tslint before 3.17), \<open>Some None\<close>
  when the method returns \<open>undefined\<close>.
\<close>

record failure =
  getFailure :: string
  getRuleName :: "string option"
  getStartPosition :: position
  getEndPosition :: position
  getFix :: "lint_fix option option"

datatype DiagnosticSeverity = Error | Warning | Information | Hint

record diagnostic =
  severity :: DiagnosticSeverity
  message :: string
  diag_range :: lsp_range
  code :: "string option"
  source :: string

record text_edit =
  edit_range :: lsp_range
  newText :: string

subsection \<open>The diagnostic mapper\<close>

text \<open>JavaScript truthiness of a value that is a string or \<open>undefined\<close>.\<close>

fun truthy :: "string option \<Rightarrow> bool" where
  "truthy None = False"
| "truthy (Some v) = (v \<noteq> [])"

fun makeDiagnostic :: "failure \<Rightarrow> diagnostic" where
  "makeDiagnostic problem =
     (let message =
        (if truthy (getRuleName problem)
         then getFailure problem @ '' ('' @ the (getRuleName problem) @ '')''
         else getFailure problem)
      in \<lparr> severity = Warning,
           message = message,
           diag_range = \<lparr> range_start =
                            \<lparr> line = line (getStartPosition problem),
                              character = character (getStartPosition problem) \<rparr>,
                          range_end =
                            \<lparr> line = line (getEndPosition problem),
                              character = character (getEndPosition problem) \<rparr> \<rparr>,
           code = getRuleName problem,
           source = ''tslinter'' \<rparr>)"

text \<open>
  The loop of the run handler: \<open>failures.forEach(failure => diagnostics.push(...))\<close>,
  with the array under construction as accumulator.
\<close>

fun pushDiagnostics :: "diagnostic list \<Rightarrow> failure list \<Rightarrow> diagnostic list" where
  "pushDiagnostics diagnostics [] = diagnostics"
| "pushDiagnostics diagnostics (failure # rest) =
     pushDiagnostics (diagnostics @ [makeDiagnostic failure]) rest"

definition toDiagnostics :: "failure list \<Rightarrow> diagnostic list" where
  "toDiagnostics failures = pushDiagnostics [] failures"

subsection \<open>The document store's text documents\<close>

text \<open>
  A \<open>TextDocument\<close> of the document manager: its version number and its full text
  (the server runs in full text synchronisation mode). Offsets count characters of the
  text, as the offsets of a replacement do.
\<close>

record text_document =
  version :: int
  content :: string

definition CR :: char where
  "CR = CHR 0x0D"

definition LF :: char where
  "LF = CHR 0x0A"

text \<open>
  Modelled from the spec: \<open>positionAt\<close> and its inverse \<open>offsetAt\<close> belong to the text
  document of the language-server library, which is not part of the repository's source;
  the specification only says that character offsets are converted to line/character
  positions against the document text. The model follows the library's full text
  document: the offsets at which lines start are collected in one scan (a line ends at
  a carriage return, a line feed, or the pair of both), an offset is first clamped to
  the text, and its line is found by binary search in the line starts.
\<close>

fun lineStartsFrom :: "nat \<Rightarrow> string \<Rightarrow> nat list" where
  "lineStartsFrom i [] = []"
| "lineStartsFrom i (ch # rest) =
     (if ch = CR then
        (case rest of
           [] \<Rightarrow> [i + 1]
         | nxt # rest' \<Rightarrow>
             if nxt = LF then (i + 2) # lineStartsFrom (i + 2) rest'
             else (i + 1) # lineStartsFrom (i + 1) rest)
      else if ch = LF then (i + 1) # lineStartsFrom (i + 1) rest
      else lineStartsFrom (i + 1) rest)"

definition getLineOffsets :: "string \<Rightarrow> nat list" where
  "getLineOffsets txt = (if txt = [] then [] else 0 # lineStartsFrom 0 txt)"

function findLow :: "nat list \<Rightarrow> nat \<Rightarrow> nat \<Rightarrow> nat \<Rightarrow> nat" where
  "findLow lineOffsets offset low high =
     (if low < high then
        (let mid = (low + high) div 2 in
         if lineOffsets ! mid > offset then findLow lineOffsets offset low mid
         else findLow lineOffsets offset (mid + 1) high)
      else low)"
  by pat_completeness auto
termination
  by (relation "measure (\<lambda>(lineOffsets, offset, low, high). high - low)") auto

declare findLow.simps [simp del]

definition clampOffset :: "string \<Rightarrow> int \<Rightarrow> nat" where
  "clampOffset txt offset = nat (max (min offset (int (length txt))) 0)"

definition positionAt :: "text_document \<Rightarrow> int \<Rightarrow> position" where
  "positionAt document offset0 =
     (let offset = clampOffset (content document) offset0;
          lineOffsets = getLineOffsets (content document);
          high = length lineOffsets
      in if high = 0 then \<lparr> line = 0, character = offset \<rparr>
         else
           (let low = findLow lineOffsets offset 0 high;
                ln = low - 1
            in \<lparr> line = ln, character = offset - lineOffsets ! ln \<rparr>))"

definition offsetAt :: "text_document \<Rightarrow> position \<Rightarrow> nat" where
  "offsetAt document pos =
     (let lineOffsets = getLineOffsets (content document) in
      if line pos \<ge> length lineOffsets then length (content document)
      else
        (let lineOffset = lineOffsets ! line pos;
             nextLineOffset =
               (if line pos + 1 < length lineOffsets then lineOffsets ! (line pos + 1)
                else length (content document))
         in max (min (lineOffset + character pos) nextLineOffset) lineOffset))"

subsection \<open>The fix synthesizer\<close>

record TSLintAutofixEdit =
  autofix_range :: "position \<times> position"
  autofix_text :: string

definition convertReplacementToAutoFix ::
    "text_document \<Rightarrow> replacement \<Rightarrow> TSLintAutofixEdit" where
  "convertReplacementToAutoFix document repl =
     (let start = positionAt document (repl_start repl);
          end' = positionAt document (repl_end repl)
      in \<lparr> autofix_range = (start, end'), autofix_text = repl_text repl \<rparr>)"

text \<open>
  One round of the first \<open>forEach\<close> of the fix handler: what a failure adds to
  \<open>autoFixes\<close>. A fix object and an array are truthy even when they hold no
  replacement; a failure whose edits are empty adds nothing.
\<close>

definition pushAutoFix ::
    "text_document \<Rightarrow> TSLintAutofixEdit list list \<Rightarrow> failure \<Rightarrow> TSLintAutofixEdit list list" where
  "pushAutoFix document autoFixes failure =
     (case getFix failure of
        None \<Rightarrow> autoFixes
      | Some None \<Rightarrow> autoFixes
      | Some (Some fx) \<Rightarrow>
          (case fx of
             FixObject replacements \<Rightarrow>
               (let edits = map (convertReplacementToAutoFix document) replacements
                in if length edits > 0 then autoFixes @ [edits] else autoFixes)
           | FixArray fixes \<Rightarrow>
               (let edits = map (convertReplacementToAutoFix document) fixes
                in if length edits > 0 then autoFixes @ [edits] else autoFixes)
           | FixSingle single \<Rightarrow>
               (let edits = map (convertReplacementToAutoFix document) [single]
                in if length edits > 0 then autoFixes @ [edits] else autoFixes)))"

fun collectAutoFixes ::
    "text_document \<Rightarrow> TSLintAutofixEdit list list \<Rightarrow> failure list \<Rightarrow> TSLintAutofixEdit list list" where
  "collectAutoFixes document autoFixes [] = autoFixes"
| "collectAutoFixes document autoFixes (failure # rest) =
     collectAutoFixes document (pushAutoFix document autoFixes failure) rest"

text \<open>\<open>TextEdit.replace(Range.create(each.range[0], each.range[1]), each.text || '')\<close>\<close>

definition autoFixToTextEdit :: "TSLintAutofixEdit \<Rightarrow> text_edit" where
  "autoFixToTextEdit each =
     \<lparr> edit_range = \<lparr> range_start = fst (autofix_range each),
                      range_end = snd (autofix_range each) \<rparr>,
       newText = (if autofix_text each \<noteq> [] then autofix_text each else []) \<rparr>"

fun concatTextEdits :: "text_edit list \<Rightarrow> TSLintAutofixEdit list list \<Rightarrow> text_edit list" where
  "concatTextEdits textEdits [] = textEdits"
| "concatTextEdits textEdits (fx # rest) =
     concatTextEdits (textEdits @ map autoFixToTextEdit fx) rest"

text \<open>The part of the fix handler that follows a lint run that produced a result.\<close>

definition synthesizeEdits :: "text_document \<Rightarrow> failure list \<Rightarrow> text_edit list" where
  "synthesizeEdits document failures =
     concatTextEdits [] (collectAutoFixes document [] failures)"

text \<open>
  The normalisation the specification describes, written after its words: a fix with a
  \<open>replacements\<close> field is that ordered list, a list is used as it is, a single
  replacement is wrapped in a one-element list, and a failure without a fix has none.
\<close>

fun spec_normalizeFix :: "lint_fix option option \<Rightarrow> replacement list" where
  "spec_normalizeFix (Some (Some (FixObject replacements))) = replacements"
| "spec_normalizeFix (Some (Some (FixArray fixes))) = fixes"
| "spec_normalizeFix (Some (Some (FixSingle single))) = [single]"
| "spec_normalizeFix _ = []"

definition spec_replacementToTextEdit :: "text_document \<Rightarrow> replacement \<Rightarrow> text_edit" where
  "spec_replacementToTextEdit document repl =
     \<lparr> edit_range = \<lparr> range_start = positionAt document (repl_start repl),
                      range_end = positionAt document (repl_end repl) \<rparr>,
       newText = repl_text repl \<rparr>"

definition spec_toTextEdits :: "failure list \<Rightarrow> text_document \<Rightarrow> text_edit list" where
  "spec_toTextEdits failures document =
     concat (map (\<lambda>failure. map (spec_replacementToTextEdit document)
                               (spec_normalizeFix (getFix failure))) failures)"

section \<open>The server\<close>

subsection \<open>The world outside the server\<close>

text \<open>An exception thrown, or the rejection of an awaited promise.\<close>

datatype js_error = TypeError | ModuleNotResolved | LibraryError

text \<open>
  The outcome of the promise of \<open>Files.resolve\<close>: rejected, or fulfilled with a value
  that is a string or \<open>undefined\<close>.
\<close>

datatype resolution = Rejected | Fulfilled "string option"

text \<open>
  What the server reads of a loaded tslint module: \<open>library.Linter.VERSION\<close>. The value
  is \<open>None\<close> when the module has no \<open>Linter\<close> member, so that the read throws (tslint 3
  and earlier, where the module is the linter itself), \<open>Some None\<close> when \<open>Linter\<close> has
  no \<open>VERSION\<close>, and \<open>Some (Some v)\<close> for the version string \<open>v\<close>.
\<close>

record library =
  Linter_VERSION :: "string option option"

text \<open>The value of \<open>getLinterFromLibrary\<close>: the module itself, or its \<open>Linter\<close> member.\<close>

datatype linter = TheModule library | LinterMember library

datatype configuration = Configuration string

record parsed_uri =
  scheme :: string
  fsPath :: string

type_synonym document_store = "(string \<rightharpoonup> nat) \<times> (nat \<Rightarrow> text_document)"

text \<open>
  \<open>path_dirname\<close>, \<open>path_parse_dir\<close>, \<open>path_join\<close> and \<open>path_sep\<close> are the platform's
  \<open>path.dirname\<close>, \<open>path.parse(...).dir\<close>, \<open>path.join\<close> and \<open>path.sep\<close>.
  \<open>semver_satisfies\<close> receives the version as the server read it. The two lint functions
  stand for the two ways a lint pass is run; they return the failures of the lint result
  or throw. \<open>editsWhileResolving\<close> is what the editor does to the document store
  while the server awaits the module resolver, the one point where a request is
  suspended.
\<close>

record world =
  Uri_parse :: "string \<Rightarrow> parsed_uri"
  path_dirname :: "string \<Rightarrow> string"
  path_parse_dir :: "string \<Rightarrow> string"
  path_join :: "string \<Rightarrow> string \<Rightarrow> string"
  path_sep :: char
  Files_resolve_local :: "string \<Rightarrow> resolution"
  Files_resolve_globalNode :: "string \<Rightarrow> resolution"
  Files_resolve_globalYarn :: "string \<Rightarrow> resolution"
  require :: "string \<Rightarrow> library"
  semver_satisfies :: "string option \<Rightarrow> string \<Rightarrow> bool"
  fs_existsSync :: "string \<Rightarrow> bool"
  loadConfigurationFromPath :: "linter \<Rightarrow> string \<Rightarrow> js_error + configuration"
  lint_modern :: "linter \<Rightarrow> string \<Rightarrow> string \<Rightarrow> configuration \<Rightarrow> js_error + failure list"
  lint_legacy :: "linter \<Rightarrow> string \<Rightarrow> string \<Rightarrow> configuration \<Rightarrow> js_error + failure list"
  editsWhileResolving :: "document_store \<Rightarrow> document_store"

subsection \<open>The server's state\<close>

text \<open>
  What the server does to the outside is recorded in a trace, in order: the messages of
  the connection's console and of the process's console, each call of the module
  resolver, of \<open>require\<close>, of \<open>isTsLintVersion4\<close> (with the library it is called for),
  of \<open>fs.existsSync\<close>, of the library's configuration loader and of a lint pass, and
  each diagnostics notification.
\<close>

datatype event =
    ConsoleError string
  | ConnectionLog string
  | StdoutLog string
  | ResolveModule string
  | Require string
  | VersionProbe library
  | ExistsSync string
  | LoadConfiguration string
  | LintRun string
  | SendDiagnostics string "diagnostic list"

text \<open>
  The three caches are the module's three maps. The document manager maps a URI to a
  document object; the objects are held by reference and updated in place, so they
  live in a store of their own.
\<close>

record server =
  document2Library :: "string \<rightharpoonup> library"
  path2Library :: "string \<rightharpoonup> library"
  document2Configuration :: "string \<rightharpoonup> configuration"
  documents :: "string \<rightharpoonup> nat"
  objects :: "nat \<Rightarrow> text_document"
  trace :: "event list"

definition emit :: "event \<Rightarrow> server \<Rightarrow> server" where
  "emit e s = s\<lparr> trace := trace s @ [e] \<rparr>"

subsection \<open>Strings and arrays of the language\<close>

text \<open>\<open>String.prototype.split\<close> with a one-character separator; the result is never empty.\<close>

fun js_split :: "char \<Rightarrow> string \<Rightarrow> string list" where
  "js_split sep [] = [[]]"
| "js_split sep (c # cs) =
     (if c = sep then [] # js_split sep cs
      else (case js_split sep cs of
              [] \<Rightarrow> [[c]]
            | w # ws \<Rightarrow> (c # w) # ws))"

text \<open>\<open>Array.prototype.join\<close> with a one-character separator.\<close>

fun js_join :: "char \<Rightarrow> string list \<Rightarrow> string" where
  "js_join sep [] = []"
| "js_join sep [w] = w"
| "js_join sep (w # ws) = w @ sep # js_join sep ws"

text \<open>The string a template literal or \<open>+\<close> makes of a value that may be \<open>undefined\<close>.\<close>

fun js_string :: "string option \<Rightarrow> string" where
  "js_string None = ''undefined''"
| "js_string (Some v) = v"

subsection \<open>Loading the library\<close>

definition awaitResolver :: "world \<Rightarrow> server \<Rightarrow> server" where
  "awaitResolver w s =
     (let store = editsWhileResolving w (documents s, objects s)
      in s\<lparr> documents := fst store, objects := snd store \<rparr>)"

text \<open>
  The chain of the three resolution strategies: a rejection hands over to the next
  strategy, the rejection of the last one is the rejection of the chain.
\<close>

definition resolveTslintPath :: "world \<Rightarrow> string \<Rightarrow> server \<Rightarrow> resolution \<times> server" where
  "resolveTslintPath w directory s =
     (let s1 = emit (ResolveModule directory) s in
      case Files_resolve_local w directory of
        Fulfilled p \<Rightarrow> (Fulfilled p, awaitResolver w s1)
      | Rejected \<Rightarrow>
          (let s2 = emit (ResolveModule directory) s1 in
           case Files_resolve_globalNode w directory of
             Fulfilled p \<Rightarrow> (Fulfilled p, awaitResolver w s2)
           | Rejected \<Rightarrow>
               (Files_resolve_globalYarn w directory,
                awaitResolver w (emit (ResolveModule directory) s2))))"

definition loadLibrary :: "world \<Rightarrow> string \<Rightarrow> server \<Rightarrow> (js_error + library option) \<times> server" where
  "loadLibrary w filePath s =
     (let directory = path_dirname w filePath in
      case resolveTslintPath w directory s of
        (Rejected, s1) \<Rightarrow> (Inl ModuleNotResolved, s1)
      | (Fulfilled tslintPath, s1) \<Rightarrow>
          (let s2 = emit (ConnectionLog (''Found tslint path: '' @ js_string tslintPath)) s1 in
           if \<not> truthy tslintPath then (Inr None, s2)
           else
             (case path2Library s2 (the tslintPath) of
                Some library \<Rightarrow> (Inr (Some library), s2)
              | None \<Rightarrow>
                  (let library = require w (the tslintPath);
                       s3 = emit (Require (the tslintPath)) s2
                   in (Inr (Some library),
                       s3\<lparr> path2Library := (path2Library s3)(the tslintPath \<mapsto> library) \<rparr>)))))"

subsection \<open>The generation of a library\<close>

definition isTsLintVersion4 :: "world \<Rightarrow> library \<Rightarrow> bool" where
  "isTsLintVersion4 w library =
     (let version = (case Linter_VERSION library of
                       None \<Rightarrow> Some ''1.0.0''
                     | Some v \<Rightarrow> v)
      in \<not> semver_satisfies w version ''<= 3.x.x'')"

text \<open>A call of \<open>isTsLintVersion4\<close>, recorded in the trace.\<close>

definition call_isTsLintVersion4 :: "world \<Rightarrow> library \<Rightarrow> server \<Rightarrow> bool \<times> server" where
  "call_isTsLintVersion4 w library s =
     (isTsLintVersion4 w library, emit (VersionProbe library) s)"

definition getLinterFromLibrary :: "world \<Rightarrow> library \<Rightarrow> server \<Rightarrow> linter \<times> server" where
  "getLinterFromLibrary w library s =
     (case call_isTsLintVersion4 w library s of
        (isTsLint4, s1) \<Rightarrow>
          (if \<not> isTsLint4 then (TheModule library, s1)
           else (LinterMember library, s1)))"

subsection \<open>Finding the configuration\<close>

text \<open>
  The \<open>while\<close> loop of \<open>getConfiguration\<close>, from a current directory on. It returns the
  directory in which the configuration file was found, if any.
\<close>

function ascend :: "world \<Rightarrow> string \<Rightarrow> server \<Rightarrow> string option \<times> server" where
  "ascend w currentDirectory s =
     (let s1 = emit (ExistsSync (path_join w currentDirectory ''tslint.json'')) s in
      if fs_existsSync w (path_join w currentDirectory ''tslint.json'')
      then (Some currentDirectory, s1)
      else
        (let splits = js_split (path_sep w) currentDirectory in
         if length splits = 1 then (None, s1)
         else ascend w (js_join (path_sep w) (take (length splits - 1) splits)) s1))"
  by pat_completeness auto

text \<open>
  Each round of the loop leaves one component less: the components of a split hold no
  separator, so joining all but the last and splitting again gives them back.
\<close>

lemma js_split_not_Nil: "js_split sep str \<noteq> []"
  by (induction str) (auto split: list.splits)

lemma js_split_sep_free: "part \<in> set (js_split sep str) \<Longrightarrow> sep \<notin> set part"
proof (induction str arbitrary: part)
  case Nil
  then show ?case by simp
next
  case (Cons c cs)
  show ?case
  proof (cases "c = sep")
    case True
    with Cons show ?thesis by auto
  next
    case False
    obtain p ps where ps: "js_split sep cs = p # ps"
      using js_split_not_Nil [of sep cs] by (cases "js_split sep cs") auto
    with Cons False show ?thesis by auto
  qed
qed

lemma js_split_append_sep:
  "sep \<notin> set p \<Longrightarrow> js_split sep (p @ sep # rest) = p # js_split sep rest"
  by (induction p) auto

lemma js_split_sep_free_word: "sep \<notin> set p \<Longrightarrow> js_split sep p = [p]"
  by (induction p) auto

lemma js_split_js_join:
  "parts \<noteq> [] \<Longrightarrow> \<forall>p \<in> set parts. sep \<notin> set p \<Longrightarrow> js_split sep (js_join sep parts) = parts"
proof (induction sep parts rule: js_join.induct)
  case (1 sep)
  then show ?case by simp
next
  case (2 sep p)
  then show ?case by (simp add: js_split_sep_free_word)
next
  case (3 sep p q qs)
  then show ?case by (simp add: js_split_append_sep)
qed

lemma ascend_parent_shorter:
  assumes "length (js_split sep dir) \<noteq> 1"
  shows "length (js_split sep (js_join sep (take (length (js_split sep dir) - 1) (js_split sep dir))))
         = length (js_split sep dir) - 1"
proof -
  define parts where "parts = js_split sep dir"
  have "parts \<noteq> []" by (simp add: parts_def js_split_not_Nil)
  with assms have len: "2 \<le> length parts"
    by (cases parts) (auto simp: parts_def [symmetric] Suc_le_eq)
  then have ne: "take (length parts - 1) parts \<noteq> []" by auto
  have free: "\<forall>p \<in> set (take (length parts - 1) parts). sep \<notin> set p"
    using js_split_sep_free [of _ sep dir] by (auto simp: parts_def dest: in_set_takeD)
  show ?thesis
    using js_split_js_join [OF ne free] len by (simp add: parts_def [symmetric])
qed

termination ascend
proof (relation "measure (\<lambda>(w, dir, s). length (js_split (path_sep w) dir))")
  show "wf (measure (\<lambda>(w, dir, s). length (js_split (path_sep w) dir)))" by simp
next
  fix w :: world and currentDirectory :: string and s s1 :: server and splits
  assume "splits = js_split (path_sep w) currentDirectory" "length splits \<noteq> 1"
  then show "((w, js_join (path_sep w) (take (length splits - 1) splits), s1), w, currentDirectory, s)
        \<in> measure (\<lambda>(w, dir, s). length (js_split (path_sep w) dir))"
    using ascend_parent_shorter [of "path_sep w" currentDirectory]
      js_split_not_Nil [of "path_sep w" currentDirectory]
    by (cases "js_split (path_sep w) currentDirectory") auto
qed

declare ascend.simps [simp del]

definition getConfiguration ::
    "world \<Rightarrow> string \<Rightarrow> library \<Rightarrow> server \<Rightarrow> (js_error + configuration option) \<times> server" where
  "getConfiguration w filePath library s =
     (case ascend w (path_parse_dir w filePath) s of
        (None, s1) \<Rightarrow> (Inr None, s1)
      | (Some currentDirectory, s1) \<Rightarrow>
          (case getLinterFromLibrary w library s1 of
             (linter, s2) \<Rightarrow>
               (let s3 = emit (LoadConfiguration (path_join w currentDirectory ''tslint.json'')) s2 in
                case loadConfigurationFromPath w linter (path_join w currentDirectory ''tslint.json'') of
                  Inl e \<Rightarrow> (Inl e, s3)
                | Inr configuration \<Rightarrow> (Inr (Some configuration), s3))))"

subsection \<open>Running the linter\<close>

text \<open>The three stages of \<open>runTSLint\<close> after the URI check, in the order of the source.\<close>

definition cachedLibrary ::
    "world \<Rightarrow> string \<Rightarrow> server \<Rightarrow> (js_error + library option) \<times> server" where
  "cachedLibrary w filePath s =
     (case document2Library s filePath of
        Some library \<Rightarrow> (Inr (Some library), s)
      | None \<Rightarrow>
          (case loadLibrary w filePath s of
             (Inl e, s1) \<Rightarrow> (Inl e, s1)
           | (Inr None, s1) \<Rightarrow>
               (Inr None, emit (ConsoleError ''Failed to run tslint. Can't find tslint module.'') s1)
           | (Inr (Some library), s1) \<Rightarrow>
               (Inr (Some library),
                s1\<lparr> document2Library := (document2Library s1)(filePath \<mapsto> library) \<rparr>)))"

definition cachedConfiguration ::
    "world \<Rightarrow> string \<Rightarrow> library \<Rightarrow> server \<Rightarrow> (js_error + configuration option) \<times> server" where
  "cachedConfiguration w filePath library s =
     (case document2Configuration s filePath of
        Some configuration \<Rightarrow> (Inr (Some configuration), s)
      | None \<Rightarrow>
          (case getConfiguration w filePath library s of
             (Inl e, s1) \<Rightarrow> (Inl e, s1)
           | (Inr None, s1) \<Rightarrow>
               (Inr None, emit (ConsoleError ''Failed to run tslint. No tslint configuration file.'') s1)
           | (Inr (Some configuration), s1) \<Rightarrow>
               (Inr (Some configuration),
                s1\<lparr> document2Configuration :=
                      (document2Configuration s1)(filePath \<mapsto> configuration) \<rparr>)))"

text \<open>
  Reading the text of a document that the store does not hold is a type error. The
  lint result is represented by its failures.
\<close>

definition lintDocument ::
    "world \<Rightarrow> string \<Rightarrow> string \<Rightarrow> library \<Rightarrow> configuration \<Rightarrow> server
      \<Rightarrow> (js_error + failure list option) \<times> server" where
  "lintDocument w documentUri filePath library configuration s =
     (case documents s documentUri of
        None \<Rightarrow> (Inl TypeError, s)
      | Some document \<Rightarrow>
          (let contents = content (objects s document) in
           case getLinterFromLibrary w library s of
             (linter, s1) \<Rightarrow>
               (case call_isTsLintVersion4 w library s1 of
                  (isTsLint4, s2) \<Rightarrow>
                    (let s3 = emit (LintRun filePath) s2 in
                     case (if isTsLint4 then lint_modern w linter filePath contents configuration
                           else lint_legacy w linter filePath contents configuration) of
                       Inl e \<Rightarrow> (Inl e, s3)
                     | Inr failures \<Rightarrow> (Inr (Some failures), s3)))))"

definition runTSLint ::
    "world \<Rightarrow> string \<Rightarrow> server \<Rightarrow> (js_error + failure list option) \<times> server" where
  "runTSLint w documentUri s =
     (let parsedUri = Uri_parse w documentUri in
      if scheme parsedUri \<noteq> ''file''
      then (Inr None,
            emit (ConsoleError (''Failed to run tslint. The provided document URI ''
                                  @ documentUri @ '' is not a file.'')) s)
      else
        (let filePath = fsPath parsedUri in
         case cachedLibrary w filePath s of
           (Inl e, s1) \<Rightarrow> (Inl e, s1)
         | (Inr None, s1) \<Rightarrow> (Inr None, s1)
         | (Inr (Some library), s1) \<Rightarrow>
             (case cachedConfiguration w filePath library s1 of
                (Inl e, s2) \<Rightarrow> (Inl e, s2)
              | (Inr None, s2) \<Rightarrow> (Inr None, s2)
              | (Inr (Some configuration), s2) \<Rightarrow>
                  lintDocument w documentUri filePath library configuration s2)))"

subsection \<open>The handlers\<close>

definition onRunTSLintRequest :: "world \<Rightarrow> string \<Rightarrow> server \<Rightarrow> (js_error + unit) \<times> server" where
  "onRunTSLintRequest w uri s =
     (case runTSLint w uri s of
        (Inl e, s1) \<Rightarrow> (Inl e, s1)
      | (Inr lintErrors, s1) \<Rightarrow>
          (let diagnostics = (case lintErrors of
                                None \<Rightarrow> []
                              | Some failures \<Rightarrow> pushDiagnostics [] failures)
           in (Inr (), emit (SendDiagnostics uri diagnostics) s1)))"

record FixTSLintResult =
  documentVersion :: int
  edits :: "text_edit list"

text \<open>
  The handler takes the document object and its version before it awaits the lint run;
  the edits are computed on the object as it is after the run.
\<close>

definition onFixTSLintRequest ::
    "world \<Rightarrow> string \<Rightarrow> server \<Rightarrow> (js_error + FixTSLintResult) \<times> server" where
  "onFixTSLintRequest w uri s =
     (case documents s uri of
        None \<Rightarrow> (Inl TypeError, s)
      | Some document \<Rightarrow>
          (let documentVersion = version (objects s document) in
           case runTSLint w uri s of
             (Inl e, s1) \<Rightarrow> (Inl e, s1)
           | (Inr None, s1) \<Rightarrow>
               (Inr \<lparr> documentVersion = documentVersion, edits = [] \<rparr>, s1)
           | (Inr (Some failures), s1) \<Rightarrow>
               (Inr \<lparr> documentVersion = documentVersion,
                      edits = synthesizeEdits (objects s1 document) failures \<rparr>, s1)))"

text \<open>The watched \<open>tslint.json\<close> files have changed: \<open>changes\<close> are the URIs reported.\<close>

definition onDidChangeWatchedFiles :: "string list \<Rightarrow> server \<Rightarrow> server" where
  "onDidChangeWatchedFiles changes s =
     fold (\<lambda>uri. emit (StdoutLog (''Detect tslint.json file change '' @ uri))) changes
       (s\<lparr> document2Configuration := Map.empty \<rparr>)"

subsection \<open>The directory ascent, described\<close>

text \<open>
  The directory strings the loop of \<open>getConfiguration\<close> can visit from a directory:
  the string made of all components of the directory, then of all but the last, and so
  on down to the first component alone.
\<close>

definition ancestry :: "char \<Rightarrow> string \<Rightarrow> string list" where
  "ancestry sep dir =
     (let parts = js_split sep dir
      in map (\<lambda>k. js_join sep (take k parts)) (rev [1..<Suc (length parts)]))"

text \<open>The elements of a list up to and including the first that satisfies a test.\<close>

fun upToFirst :: "('a \<Rightarrow> bool) \<Rightarrow> 'a list \<Rightarrow> 'a list" where
  "upToFirst P [] = []"
| "upToFirst P (x # xs) = (if P x then [x] else x # upToFirst P xs)"

definition configPath :: "world \<Rightarrow> string \<Rightarrow> string" where
  "configPath w dir = path_join w dir ''tslint.json''"

definition hasConfig :: "world \<Rightarrow> string \<Rightarrow> bool" where
  "hasConfig w dir = fs_existsSync w (configPath w dir)"

text \<open>The linter \<open>getLinterFromLibrary\<close> returns for a library.\<close>

definition linterOf :: "world \<Rightarrow> library \<Rightarrow> linter" where
  "linterOf w library =
     (if isTsLintVersion4 w library then LinterMember library else TheModule library)"

subsection \<open>Kinds of events\<close>

fun isExistsSync :: "event \<Rightarrow> bool" where
  "isExistsSync (ExistsSync p) = True"
| "isExistsSync _ = False"

fun isVersionProbe :: "event \<Rightarrow> bool" where
  "isVersionProbe (VersionProbe library) = True"
| "isVersionProbe _ = False"

fun isSendDiagnostics :: "event \<Rightarrow> bool" where
  "isSendDiagnostics (SendDiagnostics uri ds) = True"
| "isSendDiagnostics _ = False"

fun isLoadConfiguration :: "event \<Rightarrow> bool" where
  "isLoadConfiguration (LoadConfiguration p) = True"
| "isLoadConfiguration _ = False"

text \<open>The events of loading a library: a call of the module resolver or of \<open>require\<close>.\<close>

fun isLibraryLoad :: "event \<Rightarrow> bool" where
  "isLibraryLoad (ResolveModule d) = True"
| "isLibraryLoad (Require p) = True"
| "isLibraryLoad _ = False"

section \<open>Concrete inputs\<close>

text \<open>The text of the specification's scenarios, as an open document.\<close>

definition var_document :: text_document where
  "var_document = \<lparr> version = 1, content = ''var x = 1;'' \<rparr>"

definition var_to_let :: replacement where
  "var_to_let = \<lparr> repl_start = 0, repl_end = 3, repl_text = ''let'' \<rparr>"

definition no_var_failure :: failure where
  "no_var_failure =
     \<lparr> getFailure = ''Forbidden var keyword'',
       getRuleName = Some ''no-var-keyword'',
       getStartPosition = \<lparr> line = 0, character = 0 \<rparr>,
       getEndPosition = \<lparr> line = 0, character = 3 \<rparr>,
       getFix = Some (Some (FixSingle var_to_let)) \<rparr>"

subsection \<open>A project on a Windows drive\<close>

text \<open>
  The extension's documentation names Windows as the platform it works on. The
  following world is a project on a drive: two sibling files \<open>a.ts\<close> and \<open>b.ts\<close> in
  the directory \<open>src\<close> of the project directory \<open>proj\<close> on drive \<open>c:\<close>, the
  configuration file in the project directory and a tslint 5 found by the first
  resolution strategy. The path functions are those of the platform on drive paths
  written with backslashes and without empty, \<open>.\<close> or \<open>..\<close> components; the semver
  test is that of the semver package on plain versions (a version satisfies
  \<open><= 3.x.x\<close> when its major number is at most 3, and no version satisfies nothing).
\<close>

definition bsl :: char where
  "bsl = CHR 0x5C"

definition winpath :: "string list \<Rightarrow> string" where
  "winpath parts = js_join bsl parts"

definition win32_dir :: "string \<Rightarrow> string" where
  "win32_dir p =
     (let parts = js_split bsl p
      in if length parts \<le> 2 then hd parts @ [bsl] else js_join bsl (butlast parts))"

definition win32_join :: "string \<Rightarrow> string \<Rightarrow> string" where
  "win32_join dir name =
     (if dir = [] then name
      else if last dir = bsl then dir @ name
      else dir @ [bsl] @ name)"

definition win32_uri :: "string \<Rightarrow> parsed_uri" where
  "win32_uri uri =
     (if take 8 uri = ''file:///''
      then \<lparr> scheme = ''file'',
             fsPath = map (\<lambda>c. if c = CHR ''/'' then bsl else c) (drop 8 uri) \<rparr>
      else \<lparr> scheme = takeWhile (\<lambda>c. c \<noteq> CHR '':'') uri,
             fsPath = drop 1 (dropWhile (\<lambda>c. c \<noteq> CHR '':'') uri) \<rparr>)"

definition semver_major_le_3 :: "string option \<Rightarrow> string \<Rightarrow> bool" where
  "semver_major_le_3 v rng =
     (case v of
        None \<Rightarrow> False
      | Some str \<Rightarrow> takeWhile (\<lambda>c. c \<noteq> CHR ''.'') str \<in> {''0'', ''1'', ''2'', ''3''})"

definition uri_a :: string where
  "uri_a = ''file:///c:/proj/src/a.ts''"

definition uri_b :: string where
  "uri_b = ''file:///c:/proj/src/b.ts''"

definition file_a :: string where
  "file_a = winpath [''c:'', ''proj'', ''src'', ''a.ts'']"

definition file_b :: string where
  "file_b = winpath [''c:'', ''proj'', ''src'', ''b.ts'']"

definition project_config :: string where
  "project_config = winpath [''c:'', ''proj'', ''tslint.json'']"

definition tslint5 :: library where
  "tslint5 = \<lparr> Linter_VERSION = Some (Some ''5.8.0'') \<rparr>"

definition project_world :: world where
  "project_world =
     \<lparr> Uri_parse = win32_uri,
       path_dirname = win32_dir,
       path_parse_dir = win32_dir,
       path_join = win32_join,
       path_sep = bsl,
       Files_resolve_local =
         (\<lambda>directory. Fulfilled (Some (winpath [''c:'', ''proj'', ''node_modules'', ''tslint'']))),
       Files_resolve_globalNode = (\<lambda>directory. Rejected),
       Files_resolve_globalYarn = (\<lambda>directory. Rejected),
       require = (\<lambda>tslintPath. tslint5),
       semver_satisfies = semver_major_le_3,
       fs_existsSync = (\<lambda>p. p = project_config),
       loadConfigurationFromPath = (\<lambda>linter p. Inr (Configuration p)),
       lint_modern = (\<lambda>linter filePath contents configuration. Inr [no_var_failure]),
       lint_legacy = (\<lambda>linter filePath contents configuration. Inr [no_var_failure]),
       editsWhileResolving = (\<lambda>store. store) \<rparr>"

text \<open>The server after start, with both files open in the editor.\<close>

definition started :: server where
  "started =
     \<lparr> document2Library = Map.empty,
       path2Library = Map.empty,
       document2Configuration = Map.empty,
       documents = [uri_a \<mapsto> 0, uri_b \<mapsto> 1],
       objects = (\<lambda>r. var_document),
       trace = [] \<rparr>"

subsection \<open>A file below the root of a POSIX file system\<close>

text \<open>
  The path functions of a POSIX platform, on absolute paths without empty, \<open>.\<close> or
  \<open>..\<close> components. The only configuration file lies in the root directory; a
  relative path is resolved against the working directory of the server, which holds
  no configuration file.
\<close>

definition posix_dir :: "string \<Rightarrow> string" where
  "posix_dir p =
     (let parts = js_split (CHR ''/'') p
      in if length parts \<le> 2 then (if take 1 p = ''/'' then ''/'' else [])
         else js_join (CHR ''/'') (butlast parts))"

definition posix_join :: "string \<Rightarrow> string \<Rightarrow> string" where
  "posix_join dir name =
     (if dir = [] then name
      else if last dir = CHR ''/'' then dir @ name
      else dir @ ''/'' @ name)"

definition posix_world :: world where
  "posix_world =
     project_world
       \<lparr> Uri_parse := (\<lambda>uri. \<lparr> scheme = takeWhile (\<lambda>c. c \<noteq> CHR '':'') uri, fsPath = drop 7 uri \<rparr>),
         path_dirname := posix_dir,
         path_parse_dir := posix_dir,
         path_join := posix_join,
         path_sep := CHR ''/'',
         fs_existsSync := (\<lambda>p. p = ''/tslint.json'') \<rparr>"

subsection \<open>Variations of the project\<close>

text \<open>The server after a first lint request for \<open>a.ts\<close>.\<close>

definition after_a :: server where
  "after_a = snd (onRunTSLintRequest project_world uri_a started)"

text \<open>The same project with a library whose lint pass throws.\<close>

definition throwing_world :: world where
  "throwing_world =
     project_world
       \<lparr> lint_modern := (\<lambda>linter filePath contents configuration. Inl LibraryError) \<rparr>"

text \<open>The same project without any configuration file.\<close>

definition unconfigured_world :: world where
  "unconfigured_world = project_world \<lparr> fs_existsSync := (\<lambda>p. False) \<rparr>"

text \<open>
  The same project, where the user types while the server awaits the module resolver:
  every open document gets a new text and the next version number.
\<close>

definition editing_world :: world where
  "editing_world =
     project_world
       \<lparr> editsWhileResolving :=
           (\<lambda>store. (fst store,
                      \<lambda>r. \<lparr> version = version (snd store r) + 1, content = ''let x = 1;'' \<rparr>)) \<rparr>"

text \<open>The same project with tslint installed nowhere: every resolution strategy rejects.\<close>

definition uninstalled_world :: world where
  "uninstalled_world = project_world \<lparr> Files_resolve_local := (\<lambda>directory. Rejected) \<rparr>"

text \<open>
  Three more modules: one without a \<open>Linter\<close> member, as tslint 3 and earlier are; one
  whose \<open>Linter\<close> member has no \<open>VERSION\<close>; and one whose \<open>Linter\<close> carries the version
  3.15.1.
\<close>

definition legacy_module :: library where
  "legacy_module = \<lparr> Linter_VERSION = None \<rparr>"

definition unversioned_linter :: library where
  "unversioned_linter = \<lparr> Linter_VERSION = Some None \<rparr>"

definition versioned_3 :: library where
  "versioned_3 = \<lparr> Linter_VERSION = Some (Some ''3.15.1'') \<rparr>"

section \<open>Properties of the diagnostic mapper\<close>

lemma pushDiagnostics_map:
  "pushDiagnostics acc fs = acc @ map makeDiagnostic fs"
  by (induction fs arbitrary: acc) simp_all

text \<open>
  Claim C8. The diagnostic mapper is a total function that maps the failure list
  element by element, in order. The message of a diagnostic is the failure message
  followed by the rule name in parentheses when the rule name is present (truthy), and
  the bare failure message otherwise; its severity is always the warning severity; its
  range is the failure's start and end line/character positions, unchanged. Being a
  function of the failure list alone, it gives the same list whenever it is run again.
\<close>

theorem diagnostic_mapper:
  "toDiagnostics failures = map makeDiagnostic failures
   \<and> length (toDiagnostics failures) = length failures
   \<and> message (makeDiagnostic failure) =
       (if truthy (getRuleName failure)
        then getFailure failure @ '' ('' @ the (getRuleName failure) @ '')''
        else getFailure failure)
   \<and> severity (makeDiagnostic failure) = Warning
   \<and> diag_range (makeDiagnostic failure) =
       \<lparr> range_start = getStartPosition failure, range_end = getEndPosition failure \<rparr>"
  by (simp add: toDiagnostics_def pushDiagnostics_map Let_def)

section \<open>Properties of the fix synthesizer\<close>

lemma concatTextEdits_append:
  "concatTextEdits acc fxs = acc @ concat (map (map autoFixToTextEdit) fxs)"
  by (induction fxs arbitrary: acc) simp_all

lemma autoFixToTextEdit_convert:
  "autoFixToTextEdit (convertReplacementToAutoFix document repl) =
   spec_replacementToTextEdit document repl"
  by (simp add: autoFixToTextEdit_def convertReplacementToAutoFix_def
      spec_replacementToTextEdit_def Let_def)

lemma pushAutoFix_normalized:
  "concat (map (map autoFixToTextEdit) (pushAutoFix document autoFixes failure)) =
   concat (map (map autoFixToTextEdit) autoFixes) @
   map (spec_replacementToTextEdit document) (spec_normalizeFix (getFix failure))"
proof (cases "getFix failure")
  case None
  then show ?thesis by (simp add: pushAutoFix_def)
next
  case (Some got)
  show ?thesis
  proof (cases got)
    case None
    with Some show ?thesis by (simp add: pushAutoFix_def)
  next
    case inner: (Some fx)
    show ?thesis
      using Some inner
      by (cases fx) (simp_all add: pushAutoFix_def Let_def autoFixToTextEdit_convert comp_def)
  qed
qed

lemma collectAutoFixes_normalized:
  "concat (map (map autoFixToTextEdit) (collectAutoFixes document autoFixes failures)) =
   concat (map (map autoFixToTextEdit) autoFixes) @ spec_toTextEdits failures document"
proof (induction failures arbitrary: autoFixes)
  case Nil
  then show ?case by (simp add: spec_toTextEdits_def)
next
  case (Cons failure rest)
  show ?case
    using Cons.IH [of "pushAutoFix document autoFixes failure"]
    by (simp add: pushAutoFix_normalized spec_toTextEdits_def)
qed

lemma synthesizeEdits_normalized:
  "synthesizeEdits document failures = spec_toTextEdits failures document"
  using collectAutoFixes_normalized [of document "[]" failures]
  by (simp add: synthesizeEdits_def concatTextEdits_append)

text \<open>
  Claim C5. The edits the fix handler builds from a lint result are those of the
  normalisation the specification describes: for each failure, in the order of the
  failure list, the replacements of its fix (the \<open>replacements\<close> field when the fix has
  one, the list itself when the fix is a list, the one-element list when it is a single
  replacement) are turned into text edits in their order, and the lists of the failures
  are concatenated; nothing is sorted and no overlap is resolved.
\<close>

theorem fix_synthesis_normalizes_and_concatenates:
  "synthesizeEdits document failures = spec_toTextEdits failures document"
  by (rule synthesizeEdits_normalized)

subsection \<open>Positions and offsets\<close>

lemma lineStartsFrom_bounds:
  "x \<in> set (lineStartsFrom i cs) \<Longrightarrow> i < x \<and> x \<le> i + length cs"
proof (induction i cs arbitrary: x rule: lineStartsFrom.induct)
  case (1 i)
  then show ?case by simp
next
  case (2 i ch rest)
  show ?case
  proof (cases "ch = CR")
    case True
    show ?thesis
    proof (cases rest)
      case Nil
      with True "2.prems" show ?thesis by simp
    next
      case (Cons nxt rest')
      show ?thesis
      proof (cases "nxt = LF")
        case lf: True
        have "x = i + 2 \<or> x \<in> set (lineStartsFrom (i + 2) rest')"
          using "2.prems" True Cons lf by simp
        then show ?thesis
          using "2.IH"(1) [OF True Cons lf, of x] Cons by auto
      next
        case nlf: False
        have "x = i + 1 \<or> x \<in> set (lineStartsFrom (i + 1) rest)"
          using "2.prems" True Cons nlf by simp
        then show ?thesis
          using "2.IH"(2) [OF True Cons nlf, of x] by auto
      qed
    qed
  next
    case False
    show ?thesis
    proof (cases "ch = LF")
      case True
      have "x = i + 1 \<or> x \<in> set (lineStartsFrom (i + 1) rest)"
        using "2.prems" False True by simp
      then show ?thesis
        using "2.IH"(3) [OF False True, of x] by auto
    next
      case nlf: False
      have "x \<in> set (lineStartsFrom (i + 1) rest)"
        using "2.prems" False nlf by simp
      then show ?thesis
        using "2.IH"(4) [OF False nlf, of x] by auto
    qed
  qed
qed

lemma lineStartsFrom_gt:
  "x \<in> set (lineStartsFrom i cs) \<Longrightarrow> i < x"
  using lineStartsFrom_bounds [of x i cs] by simp

lemma lineStartsFrom_sorted:
  "sorted_wrt (<) (lineStartsFrom i cs)"
proof (induction i cs rule: lineStartsFrom.induct)
  case (1 i)
  then show ?case by simp
next
  case (2 i ch rest)
  show ?case
  proof (cases "ch = CR")
    case True
    show ?thesis
    proof (cases rest)
      case Nil
      with True show ?thesis by simp
    next
      case (Cons nxt rest')
      show ?thesis
      proof (cases "nxt = LF")
        case lf: True
        have eq: "lineStartsFrom i (ch # rest) = (i + 2) # lineStartsFrom (i + 2) rest'"
          using True Cons lf by simp
        show ?thesis
          unfolding eq using "2.IH"(1) [OF True Cons lf]
          by (simp add: lineStartsFrom_gt)
      next
        case nlf: False
        have eq: "lineStartsFrom i (ch # rest) = (i + 1) # lineStartsFrom (i + 1) rest"
          using True Cons nlf by simp
        show ?thesis
          unfolding eq using "2.IH"(2) [OF True Cons nlf]
          by (simp add: lineStartsFrom_gt)
      qed
    qed
  next
    case False
    show ?thesis
    proof (cases "ch = LF")
      case True
      show ?thesis
        using "2.IH"(3) [OF False True] False True by (simp add: lineStartsFrom_gt)
    next
      case nlf: False
      show ?thesis
        using "2.IH"(4) [OF False nlf] False nlf by simp
    qed
  qed
qed

lemma getLineOffsets_sorted: "sorted_wrt (<) (getLineOffsets t)"
  using lineStartsFrom_bounds [of _ 0 t]
  by (auto simp: getLineOffsets_def lineStartsFrom_sorted)

lemma getLineOffsets_bound:
  "x \<in> set (getLineOffsets t) \<Longrightarrow> x \<le> length t"
  using lineStartsFrom_bounds [of x 0 t]
  by (auto simp: getLineOffsets_def split: if_splits)

lemma getLineOffsets_first:
  "getLineOffsets txt \<noteq> [] \<Longrightarrow> getLineOffsets txt ! 0 = 0"
  by (auto simp: getLineOffsets_def split: if_splits)

lemma getLineOffsets_empty: "(getLineOffsets txt = []) = (txt = [])"
  by (auto simp: getLineOffsets_def)

lemma findLow_spec:
  assumes "sorted_wrt (<) los" "low \<le> high" "high \<le> length los"
    and "\<forall>j<low. los ! j \<le> off" and "\<forall>j. high \<le> j \<and> j < length los \<longrightarrow> off < los ! j"
  shows "low \<le> findLow los off low high \<and> findLow los off low high \<le> high
       \<and> (\<forall>j<findLow los off low high. los ! j \<le> off)
       \<and> (\<forall>j. findLow los off low high \<le> j \<and> j < length los \<longrightarrow> off < los ! j)"
  using assms
proof (induction los off low high rule: findLow.induct)
  case (1 los off low high)
  show ?case
  proof (cases "low < high")
    case False
    then have "findLow los off low high = low"
      by (subst findLow.simps) simp
    with "1.prems" False show ?thesis by simp
  next
    case True
    define mid where "mid = (low + high) div 2"
    have mid: "low \<le> mid" "mid < high" using True unfolding mid_def by linarith+
    show ?thesis
    proof (cases "los ! mid > off")
      case gt: True
      have above: "\<forall>j. mid \<le> j \<and> j < length los \<longrightarrow> off < los ! j"
      proof (intro allI impI)
        fix j assume j: "mid \<le> j \<and> j < length los"
        show "off < los ! j"
        proof (cases "j = mid")
          case True then show ?thesis using gt by simp
        next
          case False
          then have "mid < j" using j by simp
          then have "los ! mid < los ! j"
            using "1.prems"(1) j by (simp add: sorted_wrt_nth_less)
          then show ?thesis using gt by simp
        qed
      qed
      have eq: "findLow los off low high = findLow los off low mid"
        using True gt by (subst findLow.simps) (simp add: mid_def Let_def)
      have "low \<le> findLow los off low mid \<and> findLow los off low mid \<le> mid
       \<and> (\<forall>j<findLow los off low mid. los ! j \<le> off)
       \<and> (\<forall>j. findLow los off low mid \<le> j \<and> j < length los \<longrightarrow> off < los ! j)"
        using "1.IH"(1) [OF True mid_def gt "1.prems"(1) mid(1) _ "1.prems"(4) above]
          mid "1.prems"(3) by simp
      then show ?thesis unfolding eq using mid by (intro conjI) simp_all
    next
      case le: False
      have below: "\<forall>j<mid + 1. los ! j \<le> off"
      proof (intro allI impI)
        fix j assume j: "j < mid + 1"
        show "los ! j \<le> off"
        proof (cases "j = mid")
          case True then show ?thesis using le by simp
        next
          case False
          then have "j < mid" using j by simp
          moreover have "mid < length los" using mid "1.prems"(3) by simp
          ultimately have "los ! j < los ! mid"
            using "1.prems"(1) by (simp add: sorted_wrt_nth_less)
          then show ?thesis using le by simp
        qed
      qed
      have eq: "findLow los off low high = findLow los off (mid + 1) high"
        using True le by (subst findLow.simps) (simp add: mid_def Let_def)
      have "mid + 1 \<le> findLow los off (mid + 1) high \<and> findLow los off (mid + 1) high \<le> high
       \<and> (\<forall>j<findLow los off (mid + 1) high. los ! j \<le> off)
       \<and> (\<forall>j. findLow los off (mid + 1) high \<le> j \<and> j < length los \<longrightarrow> off < los ! j)"
        using "1.IH"(2) [OF True mid_def le "1.prems"(1) _ "1.prems"(3) below "1.prems"(5)]
          mid by simp
      then show ?thesis unfolding eq using mid by (intro conjI) simp_all
    qed
  qed
qed

lemma offsetAt_positionAt:
  "offsetAt document (positionAt document offset) = clampOffset (content document) offset"
proof (cases "content document = []")
  case True
  then show ?thesis
    by (simp add: offsetAt_def positionAt_def getLineOffsets_def clampOffset_def)
next
  case False
  define los where "los = getLineOffsets (content document)"
  define off where "off = clampOffset (content document) offset"
  define low where "low = findLow los off 0 (length los)"
  have ne: "los \<noteq> []" using False by (simp add: los_def getLineOffsets_empty)
  have srt: "sorted_wrt (<) los" by (simp add: los_def getLineOffsets_sorted)
  have offle: "off \<le> length (content document)"
    by (simp add: off_def clampOffset_def)
  have spec: "low \<le> length los \<and> (\<forall>j<low. los ! j \<le> off)
       \<and> (\<forall>j. low \<le> j \<and> j < length los \<longrightarrow> off < los ! j)"
    using findLow_spec [OF srt, of 0 "length los" off] by (simp add: low_def)
  have "low \<noteq> 0"
  proof
    assume "low = 0"
    then have "off < los ! 0" using spec ne by simp
    moreover have "los ! 0 = 0" using ne getLineOffsets_first by (simp add: los_def)
    ultimately show False by simp
  qed
  then have lowpos: "0 < low" by simp
  have lnlt: "low - 1 < length los" using lowpos spec by arith
  have le: "los ! (low - 1) \<le> off" using spec lowpos by simp
  have nxt: "(if low < length los then los ! low else length (content document)) \<ge> off"
    using spec offle by (auto simp: less_imp_le)
  have pos: "positionAt document offset = \<lparr> line = low - 1, character = off - los ! (low - 1) \<rparr>"
    using ne by (simp add: positionAt_def Let_def los_def [symmetric] off_def [symmetric] low_def)
  show ?thesis
    using lnlt le nxt lowpos
    by (auto simp: pos offsetAt_def Let_def los_def [symmetric] off_def [symmetric] not_le
          split: if_splits)
qed



text \<open>
  Claim C6. A failure whose fix is a single replacement of the span from \<open>s\<close> to \<open>e\<close>
  of the document text by \<open>X\<close> gives exactly one text edit; the start and the end of its
  range, converted back to offsets in the same text, are \<open>s\<close> and \<open>e\<close>, so the range
  spans the characters of the text from \<open>s\<close> up to \<open>e\<close>, and its new text is \<open>X\<close>.
\<close>

theorem single_replacement_round_trip:
  assumes "0 \<le> s" and "s \<le> e" and "e \<le> int (length (content document))"
    and "getFix failure = Some (Some (FixSingle \<lparr> repl_start = s, repl_end = e, repl_text = X \<rparr>))"
  shows "synthesizeEdits document [failure] =
           [\<lparr> edit_range = \<lparr> range_start = positionAt document s,
                              range_end = positionAt document e \<rparr>,
              newText = X \<rparr>]
         \<and> offsetAt document (positionAt document s) = nat s
         \<and> offsetAt document (positionAt document e) = nat e
         \<and> take (offsetAt document (positionAt document e) - offsetAt document (positionAt document s))
               (drop (offsetAt document (positionAt document s)) (content document))
             = take (nat e - nat s) (drop (nat s) (content document))"
proof -
  have "synthesizeEdits document [failure] =
        [spec_replacementToTextEdit document \<lparr> repl_start = s, repl_end = e, repl_text = X \<rparr>]"
    using assms(4) by (simp add: synthesizeEdits_normalized spec_toTextEdits_def)
  moreover have "clampOffset (content document) s = nat s" "clampOffset (content document) e = nat e"
    using assms(1-3) by (simp_all add: clampOffset_def)
  ultimately show ?thesis
    by (simp add: spec_replacementToTextEdit_def offsetAt_positionAt)
qed

text \<open>
  Claim C6 on the scenario of the specification: the fix of the failure on
  \<open>var x = 1;\<close> replaces the span from 0 to 3 by \<open>let\<close>. The edit's range runs from
  line 0, character 0 to line 0, character 3, which are the offsets 0 and 3 again and
  span the characters \<open>var\<close>.
\<close>

theorem single_replacement_round_trip_witness:
  "(0::int) \<le> 0 \<and> (0::int) \<le> 3 \<and> 3 \<le> int (length (content var_document))
   \<and> synthesizeEdits var_document [no_var_failure] =
         [\<lparr> edit_range = \<lparr> range_start = \<lparr> line = 0, character = 0 \<rparr>,
                            range_end = \<lparr> line = 0, character = 3 \<rparr> \<rparr>,
            newText = ''let'' \<rparr>]
   \<and> offsetAt var_document \<lparr> line = 0, character = 0 \<rparr> = 0
   \<and> offsetAt var_document \<lparr> line = 0, character = 3 \<rparr> = 3
   \<and> take (3 - 0) (drop 0 (content var_document)) = ''var''"
proof -
  have at: "positionAt var_document 0 = \<lparr> line = 0, character = 0 \<rparr>"
    "positionAt var_document 3 = \<lparr> line = 0, character = 3 \<rparr>"
    by (simp_all add: positionAt_def var_document_def clampOffset_def getLineOffsets_def Let_def
        findLow.simps CR_def LF_def)
  show ?thesis
    using single_replacement_round_trip [of 0 3 var_document no_var_failure "''let''"]
    by (simp add: at) (simp add: var_document_def no_var_failure_def var_to_let_def)
qed

section \<open>Properties of the generation detection\<close>

text \<open>
  Claim C7 as stated fails. A library whose \<open>Linter\<close> member has no \<open>VERSION\<close> has no
  version to read, and reading it does not throw: the detection passes \<open>undefined\<close> to
  the semver test, which a missing version does not satisfy, and classifies the library
  as modern, not as a pre-modern one.
\<close>

theorem linter_without_version_is_modern:
  "Linter_VERSION unversioned_linter = Some None
   \<and> isTsLintVersion4 project_world unversioned_linter
   \<and> linterOf project_world unversioned_linter = LinterMember unversioned_linter"
  by (simp add: isTsLintVersion4_def linterOf_def unversioned_linter_def project_world_def
      semver_major_le_3_def)

text \<open>
  Claim C7, amended. The detection reads the version of the loaded library. Only when
  the read throws, because the module has no \<open>Linter\<close> member, is the version taken to
  be the pre-modern 1.0.0, and the library is then legacy. A \<open>Linter\<close> member without a
  \<open>VERSION\<close> is not defaulted: the missing version satisfies no range and the library is
  modern. A library with a version string is legacy exactly when the string satisfies
  the range \<open><= 3.x.x\<close>, and modern otherwise. The classification depends on the
  library alone, so a second call gives the answer of the first. The two facts about
  the semver test that this rests on are hypotheses: 1.0.0 satisfies the range, and a
  missing version does not.
\<close>

theorem detection_defaults_when_read_throws:
  assumes "semver_satisfies w (Some ''1.0.0'') ''<= 3.x.x''"
    and "\<not> semver_satisfies w None ''<= 3.x.x''"
  shows "(Linter_VERSION library = None \<longrightarrow> \<not> isTsLintVersion4 w library)
       \<and> (Linter_VERSION library = Some None \<longrightarrow> isTsLintVersion4 w library)
       \<and> (Linter_VERSION library = Some (Some v) \<longrightarrow>
            isTsLintVersion4 w library = (\<not> semver_satisfies w (Some v) ''<= 3.x.x''))
       \<and> fst (call_isTsLintVersion4 w library s) = isTsLintVersion4 w library
       \<and> fst (call_isTsLintVersion4 w library (snd (call_isTsLintVersion4 w library s))) =
           fst (call_isTsLintVersion4 w library s)"
  using assms by (simp add: isTsLintVersion4_def call_isTsLintVersion4_def)

text \<open>
  Claim C7, amended, on the project: the module without a \<open>Linter\<close> member and the
  library of version 3.15.1 are legacy, tslint 5.8.0 is modern.
\<close>

theorem detection_defaults_when_read_throws_witness:
  "semver_satisfies project_world (Some ''1.0.0'') ''<= 3.x.x''
   \<and> \<not> semver_satisfies project_world None ''<= 3.x.x''
   \<and> Linter_VERSION legacy_module = None
   \<and> \<not> isTsLintVersion4 project_world legacy_module
   \<and> Linter_VERSION versioned_3 = Some (Some ''3.15.1'')
   \<and> \<not> isTsLintVersion4 project_world versioned_3
   \<and> Linter_VERSION tslint5 = Some (Some ''5.8.0'')
   \<and> isTsLintVersion4 project_world tslint5"
proof -
  have semver: "semver_satisfies project_world (Some ''1.0.0'') ''<= 3.x.x''"
    "\<not> semver_satisfies project_world None ''<= 3.x.x''"
    "semver_satisfies project_world (Some ''3.15.1'') ''<= 3.x.x''"
    "\<not> semver_satisfies project_world (Some ''5.8.0'') ''<= 3.x.x''"
    by (simp_all add: project_world_def semver_major_le_3_def)
  show ?thesis
    using detection_defaults_when_read_throws [OF semver(1,2), of legacy_module]
      detection_defaults_when_read_throws [OF semver(1,2), of versioned_3 "''3.15.1''"]
      detection_defaults_when_read_throws [OF semver(1,2), of tslint5 "''5.8.0''"]
      semver
    by (simp add: legacy_module_def versioned_3_def tslint5_def)
qed

section \<open>Properties of the configuration resolver\<close>

lemma js_join_js_split: "js_join sep (js_split sep str) = str"
proof (induction str)
  case Nil
  then show ?case by simp
next
  case (Cons c cs)
  obtain p ps where ps: "js_split sep cs = p # ps"
    using js_split_not_Nil [of sep cs] by (cases "js_split sep cs") auto
  show ?case
  proof (cases "c = sep")
    case True
    with Cons ps show ?thesis by simp
  next
    case False
    with Cons ps show ?thesis by (cases ps) auto
  qed
qed

lemma ancestry_single:
  "length (js_split sep dir) = 1 \<Longrightarrow> ancestry sep dir = [dir]"
  using js_join_js_split [of sep dir] by (simp add: ancestry_def Let_def)

lemma ancestry_step:
  assumes "length (js_split sep dir) \<noteq> 1"
  shows "ancestry sep dir =
         dir # ancestry sep (js_join sep (take (length (js_split sep dir) - 1) (js_split sep dir)))"
proof -
  define parts where "parts = js_split sep dir"
  define n where "n = length parts"
  have "parts \<noteq> []" by (simp add: parts_def js_split_not_Nil)
  with assms have n2: "2 \<le> n"
    by (cases parts) (auto simp: parts_def [symmetric] n_def Suc_le_eq)
  have ne: "take (n - 1) parts \<noteq> []" using n2 \<open>parts \<noteq> []\<close> by (auto simp: n_def)
  have free: "\<forall>p \<in> set (take (n - 1) parts). sep \<notin> set p"
    using js_split_sep_free [of _ sep dir] by (auto simp: parts_def dest: in_set_takeD)
  have parent: "js_split sep (js_join sep (take (n - 1) parts)) = take (n - 1) parts"
    by (rule js_split_js_join [OF ne free])
  have idx: "rev [1..<Suc n] = n # rev [1..<Suc (n - 1)]"
    using n2 by (cases n) auto
  have whole: "js_join sep (take n parts) = dir"
    by (simp add: n_def parts_def js_join_js_split)
  have rest: "map (\<lambda>k. js_join sep (take k parts)) (rev [1..<Suc (n - 1)]) =
              map (\<lambda>k. js_join sep (take k (take (n - 1) parts))) (rev [1..<Suc (n - 1)])"
    by (rule map_cong) (auto simp: min_def)
  have len: "length (take (n - 1) parts) = n - 1" by (simp add: n_def)
  show ?thesis
    unfolding ancestry_def Let_def parts_def [symmetric] n_def [symmetric] parent len
    using idx whole rest by simp
qed

lemma ancestry_not_Nil: "ancestry sep dir \<noteq> []"
  by (cases "length (js_split sep dir) = 1") (simp_all add: ancestry_single ancestry_step)

lemma hd_ancestry: "hd (ancestry sep dir) = dir"
  by (cases "length (js_split sep dir) = 1") (simp_all add: ancestry_single ancestry_step)

lemma length_ancestry: "length (ancestry sep dir) = length (js_split sep dir)"
  by (simp add: ancestry_def Let_def del: upt_Suc)

lemma ascend_eq:
  "ascend w dir s =
     (find (hasConfig w) (ancestry (path_sep w) dir),
      s\<lparr> trace := trace s @ map (\<lambda>d. ExistsSync (configPath w d))
                               (upToFirst (hasConfig w) (ancestry (path_sep w) dir)) \<rparr>)"
proof (induction w dir s rule: ascend.induct)
  case (1 w dir s)
  show ?case
  proof (cases "fs_existsSync w (path_join w dir ''tslint.json'')")
    case True
    have "ancestry (path_sep w) dir = dir # tl (ancestry (path_sep w) dir)"
      using ancestry_not_Nil [of "path_sep w" dir] hd_ancestry [of "path_sep w" dir]
      by (cases "ancestry (path_sep w) dir") auto
    then obtain rest where anc: "ancestry (path_sep w) dir = dir # rest" by blast
    show ?thesis
      using True
      by (subst ascend.simps) (simp add: anc hasConfig_def configPath_def emit_def)
  next
    case False
    show ?thesis
    proof (cases "length (js_split (path_sep w) dir) = 1")
      case True
      show ?thesis
        using False True
        by (subst ascend.simps)
          (simp add: ancestry_single hasConfig_def configPath_def emit_def)
    next
      case more: False
      have IH: "ascend w (js_join (path_sep w)
                  (take (length (js_split (path_sep w) dir) - 1) (js_split (path_sep w) dir)))
                  (emit (ExistsSync (path_join w dir ''tslint.json'')) s) =
                (find (hasConfig w) (tl (ancestry (path_sep w) dir)),
                 (emit (ExistsSync (path_join w dir ''tslint.json'')) s)
                   \<lparr> trace := trace (emit (ExistsSync (path_join w dir ''tslint.json'')) s) @
                       map (\<lambda>d. ExistsSync (configPath w d))
                         (upToFirst (hasConfig w) (tl (ancestry (path_sep w) dir))) \<rparr>)"
        using "1.IH" [OF refl False refl more] ancestry_step [OF more] by simp
      have step: "ascend w dir s =
                  ascend w (js_join (path_sep w)
                    (take (length (js_split (path_sep w) dir) - 1) (js_split (path_sep w) dir)))
                    (emit (ExistsSync (path_join w dir ''tslint.json'')) s)"
        using False more by (subst ascend.simps) (simp add: Let_def)
      have miss: "\<not> hasConfig w dir"
        using False by (simp add: hasConfig_def configPath_def)
      have anc: "ancestry (path_sep w) dir = dir # tl (ancestry (path_sep w) dir)"
        using ancestry_step [OF more] by simp
      show ?thesis
        unfolding step IH
        by (subst (3 4) anc) (simp add: miss configPath_def emit_def)
    qed
  qed
qed


section \<open>The effects of a lint run\<close>

lemma emit_fields [simp]:
  "trace (emit e s) = trace s @ [e]"
  "document2Library (emit e s) = document2Library s"
  "path2Library (emit e s) = path2Library s"
  "document2Configuration (emit e s) = document2Configuration s"
  "documents (emit e s) = documents s"
  "objects (emit e s) = objects s"
  by (simp_all add: emit_def)

lemma awaitResolver_fields [simp]:
  "trace (awaitResolver w s) = trace s"
  "document2Library (awaitResolver w s) = document2Library s"
  "path2Library (awaitResolver w s) = path2Library s"
  "document2Configuration (awaitResolver w s) = document2Configuration s"
  by (simp_all add: awaitResolver_def Let_def)

lemma resolveTslintPath_frame [simp]:
  "document2Library (snd (resolveTslintPath w d s)) = document2Library s"
  "path2Library (snd (resolveTslintPath w d s)) = path2Library s"
  "document2Configuration (snd (resolveTslintPath w d s)) = document2Configuration s"
  by (simp_all add: resolveTslintPath_def Let_def split: resolution.splits)

lemma resolveTslintPath_filter:
  assumes "\<And>x. \<not> P (ResolveModule x)"
  shows "filter P (trace (snd (resolveTslintPath w d s))) = filter P (trace s)"
  using assms by (simp add: resolveTslintPath_def Let_def split: resolution.splits)

lemma loadLibrary_frame [simp]:
  "document2Library (snd (loadLibrary w f s)) = document2Library s"
  "document2Configuration (snd (loadLibrary w f s)) = document2Configuration s"
  by (simp_all add: loadLibrary_def Let_def case_prod_unfold
      split: resolution.splits option.splits)

lemma loadLibrary_filter:
  assumes "\<And>x. \<not> P (ResolveModule x)" "\<And>x. \<not> P (ConnectionLog x)" "\<And>x. \<not> P (Require x)"
  shows "filter P (trace (snd (loadLibrary w f s))) = filter P (trace s)"
  using assms
  by (simp add: loadLibrary_def Let_def case_prod_unfold resolveTslintPath_filter
      split: resolution.splits option.splits)

lemma cachedLibrary_hit:
  "document2Library s f = Some lib \<Longrightarrow> cachedLibrary w f s = (Inr (Some lib), s)"
  by (simp add: cachedLibrary_def)

lemma cachedLibrary_stored:
  "fst (cachedLibrary w f s) = Inr (Some library) \<Longrightarrow>
   document2Library (snd (cachedLibrary w f s)) f = Some library"
  by (auto simp: cachedLibrary_def case_prod_unfold split: option.splits sum.splits)

lemma cachedLibrary_frame [simp]:
  "document2Configuration (snd (cachedLibrary w f s)) = document2Configuration s"
  by (simp add: cachedLibrary_def case_prod_unfold split: option.splits sum.splits)

lemma cachedLibrary_filter:
  assumes "\<And>x. \<not> P (ResolveModule x)" "\<And>x. \<not> P (ConnectionLog x)" "\<And>x. \<not> P (Require x)"
    "\<And>x. \<not> P (ConsoleError x)"
  shows "filter P (trace (snd (cachedLibrary w f s))) = filter P (trace s)"
  using assms
  by (simp add: cachedLibrary_def case_prod_unfold loadLibrary_filter
      split: option.splits sum.splits)

lemma getLinterFromLibrary_eq:
  "getLinterFromLibrary w library s = (linterOf w library, emit (VersionProbe library) s)"
  by (simp add: getLinterFromLibrary_def call_isTsLintVersion4_def linterOf_def)

lemma getConfiguration_eq:
  "getConfiguration w f library s =
     (case find (hasConfig w) (ancestry (path_sep w) (path_parse_dir w f)) of
        None \<Rightarrow>
          (Inr None,
           s\<lparr> trace := trace s @ map (\<lambda>d. ExistsSync (configPath w d))
               (upToFirst (hasConfig w) (ancestry (path_sep w) (path_parse_dir w f))) \<rparr>)
      | Some dir \<Rightarrow>
          (map_sum id Some (loadConfigurationFromPath w (linterOf w library) (configPath w dir)),
           s\<lparr> trace := trace s @ map (\<lambda>d. ExistsSync (configPath w d))
               (upToFirst (hasConfig w) (ancestry (path_sep w) (path_parse_dir w f)))
               @ [VersionProbe library, LoadConfiguration (configPath w dir)] \<rparr>))"
  by (simp add: getConfiguration_def ascend_eq getLinterFromLibrary_eq Let_def emit_def
      configPath_def split: option.splits sum.splits)


lemma map_sum_Some_simps [simp]:
  "(map_sum id Some x = Inr None) = False"
  "(map_sum id Some x = Inr (Some c)) = (x = Inr c)"
  "(map_sum id Some x = Inl e) = (x = Inl e)"
  by (cases x; auto)+

lemma getConfiguration_frame [simp]:
  "document2Library (snd (getConfiguration w f library s)) = document2Library s"
  "path2Library (snd (getConfiguration w f library s)) = path2Library s"
  "document2Configuration (snd (getConfiguration w f library s)) = document2Configuration s"
  "documents (snd (getConfiguration w f library s)) = documents s"
  "objects (snd (getConfiguration w f library s)) = objects s"
  by (simp_all add: getConfiguration_eq split: option.splits)

lemma cachedConfiguration_hit:
  "document2Configuration s f = Some c \<Longrightarrow> cachedConfiguration w f library s = (Inr (Some c), s)"
  by (simp add: cachedConfiguration_def)

lemma cachedConfiguration_frame [simp]:
  "document2Library (snd (cachedConfiguration w f library s)) = document2Library s"
  "path2Library (snd (cachedConfiguration w f library s)) = path2Library s"
  "documents (snd (cachedConfiguration w f library s)) = documents s"
  "objects (snd (cachedConfiguration w f library s)) = objects s"
  by (simp_all add: cachedConfiguration_def case_prod_unfold split: option.splits sum.splits)

lemma cachedConfiguration_other:
  "g \<noteq> f \<Longrightarrow>
   document2Configuration (snd (cachedConfiguration w f library s)) g = document2Configuration s g"
  by (simp add: cachedConfiguration_def case_prod_unfold split: option.splits sum.splits)

lemma cachedConfiguration_stored:
  "fst (cachedConfiguration w f library s) = Inr (Some c) \<Longrightarrow>
   document2Configuration (snd (cachedConfiguration w f library s)) f = Some c"
  by (auto simp: cachedConfiguration_def case_prod_unfold split: option.splits sum.splits)

lemma cachedConfiguration_trace:
  "trace (snd (cachedConfiguration w f library s)) =
   trace s @
   (if document2Configuration s f \<noteq> None then []
    else map (\<lambda>d. ExistsSync (configPath w d))
           (upToFirst (hasConfig w) (ancestry (path_sep w) (path_parse_dir w f)))
         @ (case find (hasConfig w) (ancestry (path_sep w) (path_parse_dir w f)) of
              None \<Rightarrow> [ConsoleError ''Failed to run tslint. No tslint configuration file.'']
            | Some dir \<Rightarrow> [VersionProbe library, LoadConfiguration (configPath w dir)]))"
  by (simp add: cachedConfiguration_def case_prod_unfold getConfiguration_eq
      split: option.splits sum.splits)

lemma cachedConfiguration_found:
  "document2Configuration s f = None \<Longrightarrow>
   fst (cachedConfiguration w f library s) = Inr (Some c) \<Longrightarrow>
   find (hasConfig w) (ancestry (path_sep w) (path_parse_dir w f)) \<noteq> None"
  by (auto simp: cachedConfiguration_def case_prod_unfold getConfiguration_eq
      split: option.splits sum.splits)

lemma cachedConfiguration_miss_result:
  "document2Configuration s f = None \<Longrightarrow>
   fst (cachedConfiguration w f library s) =
     (case find (hasConfig w) (ancestry (path_sep w) (path_parse_dir w f)) of
        None \<Rightarrow> Inr None
      | Some dir \<Rightarrow>
          map_sum id Some (loadConfigurationFromPath w (linterOf w library) (configPath w dir)))"
  by (simp add: cachedConfiguration_def case_prod_unfold getConfiguration_eq
      split: option.splits sum.splits)

lemma lintDocument_frame [simp]:
  "document2Library (snd (lintDocument w uri f library c s)) = document2Library s"
  "path2Library (snd (lintDocument w uri f library c s)) = path2Library s"
  "document2Configuration (snd (lintDocument w uri f library c s)) = document2Configuration s"
  "documents (snd (lintDocument w uri f library c s)) = documents s"
  "objects (snd (lintDocument w uri f library c s)) = objects s"
  by (simp_all add: lintDocument_def getLinterFromLibrary_eq call_isTsLintVersion4_def Let_def
      split: option.splits sum.splits)

lemma lintDocument_trace:
  "trace (snd (lintDocument w uri f library c s)) =
   trace s @ (if documents s uri = None then []
              else [VersionProbe library, VersionProbe library, LintRun f])"
  by (simp add: lintDocument_def getLinterFromLibrary_eq call_isTsLintVersion4_def Let_def
      split: option.splits sum.splits)

lemma lintDocument_result:
  "fst (lintDocument w uri f library c s) = Inr r \<Longrightarrow> documents s uri \<noteq> None \<and> r \<noteq> None"
  by (auto simp: lintDocument_def getLinterFromLibrary_eq call_isTsLintVersion4_def Let_def
      split: option.splits sum.splits)

lemma runTSLint_not_file:
  "scheme (Uri_parse w uri) \<noteq> ''file'' \<Longrightarrow>
   runTSLint w uri s =
     (Inr None, emit (ConsoleError (''Failed to run tslint. The provided document URI ''
                                      @ uri @ '' is not a file.'')) s)"
  by (simp add: runTSLint_def Let_def)

lemma runTSLint_file:
  "scheme (Uri_parse w uri) = ''file'' \<Longrightarrow>
   runTSLint w uri s =
     (case fst (cachedLibrary w (fsPath (Uri_parse w uri)) s) of
        Inl e \<Rightarrow> (Inl e, snd (cachedLibrary w (fsPath (Uri_parse w uri)) s))
      | Inr None \<Rightarrow> (Inr None, snd (cachedLibrary w (fsPath (Uri_parse w uri)) s))
      | Inr (Some library) \<Rightarrow>
          (case fst (cachedConfiguration w (fsPath (Uri_parse w uri)) library
                       (snd (cachedLibrary w (fsPath (Uri_parse w uri)) s))) of
             Inl e \<Rightarrow> (Inl e, snd (cachedConfiguration w (fsPath (Uri_parse w uri)) library
                                   (snd (cachedLibrary w (fsPath (Uri_parse w uri)) s))))
           | Inr None \<Rightarrow> (Inr None, snd (cachedConfiguration w (fsPath (Uri_parse w uri)) library
                                        (snd (cachedLibrary w (fsPath (Uri_parse w uri)) s))))
           | Inr (Some c) \<Rightarrow>
               lintDocument w uri (fsPath (Uri_parse w uri)) library c
                 (snd (cachedConfiguration w (fsPath (Uri_parse w uri)) library
                        (snd (cachedLibrary w (fsPath (Uri_parse w uri)) s))))))"
  by (simp add: runTSLint_def Let_def case_prod_unfold split: sum.splits option.splits)

lemma runTSLint_filter:
  assumes "\<And>x. \<not> P (ResolveModule x)" "\<And>x. \<not> P (ConnectionLog x)" "\<And>x. \<not> P (Require x)"
    "\<And>x. \<not> P (ConsoleError x)" "\<And>x. \<not> P (ExistsSync x)" "\<And>x. \<not> P (LoadConfiguration x)"
    "\<And>x. \<not> P (VersionProbe x)" "\<And>x. \<not> P (LintRun x)"
  shows "filter P (trace (snd (runTSLint w uri s))) = filter P (trace s)"
proof (cases "scheme (Uri_parse w uri) = ''file''")
  case False
  then show ?thesis using assms by (simp add: runTSLint_not_file)
next
  case True
  have map_none: "\<And>xs. filter P (map (\<lambda>d. ExistsSync (configPath w d)) xs) = []"
    using assms(5) by (simp add: filter_empty_conv)
  show ?thesis
    using assms
    by (simp add: runTSLint_file [OF True] cachedLibrary_filter cachedConfiguration_trace
        lintDocument_trace map_none split: sum.splits option.splits)
qed


lemma filter_probes [simp]:
  "filter isExistsSync (map (\<lambda>dir. ExistsSync (configPath w dir)) xs)
      = map (\<lambda>dir. ExistsSync (configPath w dir)) xs"
  "filter isVersionProbe (map (\<lambda>dir. ExistsSync (configPath w dir)) xs) = []"
  "filter isLibraryLoad (map (\<lambda>dir. ExistsSync (configPath w dir)) xs) = []"
  "filter isLoadConfiguration (map (\<lambda>dir. ExistsSync (configPath w dir)) xs) = []"
  by (induction xs) simp_all

lemma upToFirst_ancestry_not_Nil: "upToFirst P (ancestry sep dir) \<noteq> []"
  using ancestry_not_Nil [of sep dir] by (cases "ancestry sep dir") auto

lemma runTSLint_config_other:
  "g \<noteq> fsPath (Uri_parse w uri) \<Longrightarrow>
   document2Configuration (snd (runTSLint w uri s)) g = document2Configuration s g"
proof (cases "scheme (Uri_parse w uri) = ''file''")
  case False
  then show ?thesis by (simp add: runTSLint_not_file)
next
  case True
  assume "g \<noteq> fsPath (Uri_parse w uri)"
  then show ?thesis
    by (simp add: runTSLint_file [OF True] cachedConfiguration_other
        split: sum.splits option.splits)
qed

lemma runTSLint_config_stored:
  assumes "fst (runTSLint w uri s) = Inr (Some failures)"
  shows "document2Configuration (snd (runTSLint w uri s)) (fsPath (Uri_parse w uri)) \<noteq> None"
proof (cases "scheme (Uri_parse w uri) = ''file''")
  case False
  with assms show ?thesis by (simp add: runTSLint_not_file)
next
  case True
  show ?thesis
    using assms
    by (auto simp: runTSLint_file [OF True] cachedConfiguration_stored
        split: sum.splits option.splits)
qed

lemma runTSLint_probes:
  assumes "scheme (Uri_parse w uri) = ''file''"
  shows "filter isExistsSync (trace (snd (runTSLint w uri s))) =
         filter isExistsSync (trace s) @
         (case fst (cachedLibrary w (fsPath (Uri_parse w uri)) s) of
            Inr (Some library) \<Rightarrow>
              if document2Configuration s (fsPath (Uri_parse w uri)) \<noteq> None then []
              else map (\<lambda>dir. ExistsSync (configPath w dir))
                     (upToFirst (hasConfig w)
                        (ancestry (path_sep w) (path_parse_dir w (fsPath (Uri_parse w uri)))))
          | _ \<Rightarrow> [])"
  by (simp add: runTSLint_file [OF assms] cachedLibrary_filter cachedConfiguration_trace
      lintDocument_trace split: sum.splits option.splits)

lemma runTSLint_library_reused:
  assumes "scheme (Uri_parse w uri) = ''file''"
    and "document2Library s (fsPath (Uri_parse w uri)) = Some library"
  shows "filter isLibraryLoad (trace (snd (runTSLint w uri s))) = filter isLibraryLoad (trace s)"
    and "document2Library (snd (runTSLint w uri s)) = document2Library s"
    and "path2Library (snd (runTSLint w uri s)) = path2Library s"
  using assms(2)
  by (simp_all add: runTSLint_file [OF assms(1)] cachedLibrary_hit cachedConfiguration_trace
      lintDocument_trace split: sum.splits option.splits)

lemma runTSLint_configuration_loads:
  assumes "scheme (Uri_parse w uri) = ''file''"
    and "document2Library s (fsPath (Uri_parse w uri)) = Some library"
    and "document2Configuration s (fsPath (Uri_parse w uri)) = None"
  shows "filter isLoadConfiguration (trace (snd (runTSLint w uri s))) =
         filter isLoadConfiguration (trace s) @
         (case find (hasConfig w)
                 (ancestry (path_sep w) (path_parse_dir w (fsPath (Uri_parse w uri)))) of
            None \<Rightarrow> []
          | Some dir \<Rightarrow> [LoadConfiguration (configPath w dir)])"
  using assms(2,3)
  by (simp add: runTSLint_file [OF assms(1)] cachedLibrary_hit cachedConfiguration_trace
      lintDocument_trace split: sum.splits option.splits)

lemma runTSLint_null:
  "scheme (Uri_parse w uri) \<noteq> ''file'' \<Longrightarrow> fst (runTSLint w uri s) = Inr None"
  "scheme (Uri_parse w uri) = ''file'' \<Longrightarrow>
   document2Library s (fsPath (Uri_parse w uri)) = None \<Longrightarrow>
   fst (loadLibrary w (fsPath (Uri_parse w uri)) s) = Inr None \<Longrightarrow>
   fst (runTSLint w uri s) = Inr None"
  "scheme (Uri_parse w uri) = ''file'' \<Longrightarrow>
   fst (cachedLibrary w (fsPath (Uri_parse w uri)) s) = Inr (Some library) \<Longrightarrow>
   document2Configuration s (fsPath (Uri_parse w uri)) = None \<Longrightarrow>
   find (hasConfig w) (ancestry (path_sep w) (path_parse_dir w (fsPath (Uri_parse w uri)))) = None \<Longrightarrow>
   fst (runTSLint w uri s) = Inr None"
proof -
  show "scheme (Uri_parse w uri) \<noteq> ''file'' \<Longrightarrow> fst (runTSLint w uri s) = Inr None"
    by (simp add: runTSLint_not_file)
next
  assume isfile: "scheme (Uri_parse w uri) = ''file''"
    and "document2Library s (fsPath (Uri_parse w uri)) = None"
    and "fst (loadLibrary w (fsPath (Uri_parse w uri)) s) = Inr None"
  then have "fst (cachedLibrary w (fsPath (Uri_parse w uri)) s) = Inr None"
    by (simp add: cachedLibrary_def case_prod_unfold)
  then show "fst (runTSLint w uri s) = Inr None"
    by (simp add: runTSLint_file [OF isfile])
next
  assume isfile: "scheme (Uri_parse w uri) = ''file''"
    and lib: "fst (cachedLibrary w (fsPath (Uri_parse w uri)) s) = Inr (Some library)"
    and "document2Configuration s (fsPath (Uri_parse w uri)) = None"
    and "find (hasConfig w) (ancestry (path_sep w) (path_parse_dir w (fsPath (Uri_parse w uri)))) = None"
  then have "fst (cachedConfiguration w (fsPath (Uri_parse w uri)) library
                    (snd (cachedLibrary w (fsPath (Uri_parse w uri)) s))) = Inr None"
    by (simp add: cachedConfiguration_def case_prod_unfold getConfiguration_eq)
  then show "fst (runTSLint w uri s) = Inr None"
    using lib by (simp add: runTSLint_file [OF isfile])
qed

lemma fold_emit_fields:
  "document2Configuration (fold (\<lambda>x. emit (g x)) xs t) = document2Configuration t"
  "document2Library (fold (\<lambda>x. emit (g x)) xs t) = document2Library t"
  "path2Library (fold (\<lambda>x. emit (g x)) xs t) = path2Library t"
  "documents (fold (\<lambda>x. emit (g x)) xs t) = documents t"
  "objects (fold (\<lambda>x. emit (g x)) xs t) = objects t"
  "trace (fold (\<lambda>x. emit (g x)) xs t) = trace t @ map g xs"
  by (induction xs arbitrary: t) simp_all

lemma onDidChangeWatchedFiles_fields:
  "document2Configuration (onDidChangeWatchedFiles changes s) = Map.empty"
  "document2Library (onDidChangeWatchedFiles changes s) = document2Library s"
  "path2Library (onDidChangeWatchedFiles changes s) = path2Library s"
  "documents (onDidChangeWatchedFiles changes s) = documents s"
  "objects (onDidChangeWatchedFiles changes s) = objects s"
  "trace (onDidChangeWatchedFiles changes s) =
     trace s @ map (\<lambda>uri. StdoutLog (''Detect tslint.json file change '' @ uri)) changes"
  unfolding onDidChangeWatchedFiles_def
  by (simp_all only: fold_emit_fields) simp_all

section \<open>Claims about the configuration resolver\<close>

lemma upToFirst_length: "length (upToFirst P xs) \<le> length xs"
  by (induction xs) auto

lemma upToFirst_all: "find P xs = None \<Longrightarrow> upToFirst P xs = xs"
  by (induction xs) (auto split: if_splits)

lemma last_ancestry: "last (ancestry sep dir) = hd (js_split sep dir)"
proof -
  obtain p ps where ps: "js_split sep dir = p # ps"
    using js_split_not_Nil [of sep dir] by (cases "js_split sep dir") auto
  show ?thesis
    by (simp add: ancestry_def Let_def ps last_map last_rev del: upt_Suc)
qed

text \<open>
  The ascent of the configuration resolver. For every file path the resolver returns.
  It probes the directory strings of the ascent in order, nearest first: the directory
  of the file, then the string left when the last separator-delimited component is cut
  off, and so on; each string is probed at most once, so there are at most as many
  probes as the directory has components. The resolver stops at the first string whose
  directory holds a configuration file and returns what the library loads from there.
  It returns NotFound exactly when no string of the ascent holds a configuration file,
  and then every string has been probed, the last of which has no separator left.
\<close>

lemma getConfiguration_ascent:
  "fst (getConfiguration w filePath library s) =
     (case find (hasConfig w) (ancestry (path_sep w) (path_parse_dir w filePath)) of
        None \<Rightarrow> Inr None
      | Some dir \<Rightarrow>
          map_sum id Some
            (loadConfigurationFromPath w (linterOf w library) (configPath w dir)))
   \<and> filter isExistsSync (trace (snd (getConfiguration w filePath library s))) =
       filter isExistsSync (trace s) @
       map (\<lambda>dir. ExistsSync (configPath w dir))
         (upToFirst (hasConfig w) (ancestry (path_sep w) (path_parse_dir w filePath)))
   \<and> length (upToFirst (hasConfig w) (ancestry (path_sep w) (path_parse_dir w filePath)))
       \<le> length (js_split (path_sep w) (path_parse_dir w filePath))
   \<and> (fst (getConfiguration w filePath library s) = Inr None) =
       (find (hasConfig w) (ancestry (path_sep w) (path_parse_dir w filePath)) = None
        \<and> upToFirst (hasConfig w) (ancestry (path_sep w) (path_parse_dir w filePath)) =
            ancestry (path_sep w) (path_parse_dir w filePath))
   \<and> path_sep w \<notin> set (last (ancestry (path_sep w) (path_parse_dir w filePath)))"
proof -
  have sepfree: "path_sep w \<notin> set (last (ancestry (path_sep w) (path_parse_dir w filePath)))"
    using js_split_sep_free [of "hd (js_split (path_sep w) (path_parse_dir w filePath))"
        "path_sep w" "path_parse_dir w filePath"]
      js_split_not_Nil [of "path_sep w" "path_parse_dir w filePath"]
    by (simp add: last_ancestry)
  have len: "length (upToFirst (hasConfig w) (ancestry (path_sep w) (path_parse_dir w filePath)))
       \<le> length (js_split (path_sep w) (path_parse_dir w filePath))"
    using upToFirst_length [of "hasConfig w" "ancestry (path_sep w) (path_parse_dir w filePath)"]
    by (simp add: length_ancestry)
  have probes: "filter isExistsSync (map (\<lambda>dir. ExistsSync (configPath w dir)) xs)
      = map (\<lambda>dir. ExistsSync (configPath w dir)) xs" for xs
    by (induction xs) simp_all
  show ?thesis
    using sepfree len
    by (auto simp: getConfiguration_eq probes upToFirst_all split: option.splits)
qed

text \<open>
  On the project: for the file \<open>a.ts\<close> the resolver probes the directory of the file
  and then the project directory, and returns the configuration loaded from the project
  directory.
\<close>

lemma getConfiguration_ascent_on_project:
  "fst (getConfiguration project_world file_a tslint5 started) =
     Inr (Some (Configuration project_config))
   \<and> filter isExistsSync (trace (snd (getConfiguration project_world file_a tslint5 started))) =
       [ExistsSync (winpath [''c:'', ''proj'', ''src'', ''tslint.json'']),
        ExistsSync (winpath [''c:'', ''proj'', ''tslint.json''])]"
  using getConfiguration_ascent [of project_world file_a tslint5 started]
  by (simp add: ancestry_def hasConfig_def configPath_def project_world_def win32_dir_def
      win32_join_def started_def Let_def file_a_def project_config_def winpath_def bsl_def)

text \<open>
  Claim C3, at the input where the code departs from it. The file \<open>/proj/a.ts\<close> has
  the root directory among its ancestors, and the root directory holds a configuration
  file, so the claim has the resolver return the configuration loaded from the root
  directory. The resolver probes the directory of the file. Cutting off the last
  component then leaves the empty string, which splits into one component, and the loop
  ends there under its comment \<open>No config file at root directory\<close> with NotFound. The
  root directory itself is never probed: the last probe is of the relative path
  \<open>tslint.json\<close>.
\<close>

theorem root_configuration_missed_on_posix:
  "path_parse_dir posix_world ''/proj/a.ts'' = ''/proj''
   \<and> fs_existsSync posix_world (configPath posix_world ''/'')
   \<and> fst (getConfiguration posix_world ''/proj/a.ts'' tslint5 started) = Inr None
   \<and> filter isExistsSync (trace (snd (getConfiguration posix_world ''/proj/a.ts'' tslint5 started)))
       = [ExistsSync ''/proj/tslint.json'', ExistsSync ''tslint.json'']"
  by (simp add: getConfiguration_eq ancestry_def hasConfig_def configPath_def posix_world_def
      project_world_def posix_dir_def posix_join_def started_def Let_def)

section \<open>The project, evaluated\<close>

lemmas world_defs = project_world_def win32_uri_def win32_dir_def win32_join_def
  semver_major_le_3_def uri_a_def uri_b_def file_a_def file_b_def project_config_def
  tslint5_def winpath_def bsl_def started_def var_document_def

lemmas run_defs = onRunTSLintRequest_def runTSLint_def cachedLibrary_def loadLibrary_def
  resolveTslintPath_def cachedConfiguration_def getConfiguration_eq lintDocument_def
  getLinterFromLibrary_eq call_isTsLintVersion4_def isTsLintVersion4_def linterOf_def
  ancestry_def hasConfig_def configPath_def awaitResolver_def emit_def Let_def

lemma after_a_fields:
  "document2Configuration after_a = [file_a \<mapsto> Configuration project_config]"
  "document2Library after_a = [file_a \<mapsto> tslint5]"
  "path2Library after_a = [winpath [''c:'', ''proj'', ''node_modules'', ''tslint''] \<mapsto> tslint5]"
  "documents after_a = documents started"
  "objects after_a = objects started"
  "filter isExistsSync (trace after_a) =
     [ExistsSync (winpath [''c:'', ''proj'', ''src'', ''tslint.json'']),
      ExistsSync (winpath [''c:'', ''proj'', ''tslint.json''])]"
  "filter isVersionProbe (trace after_a) =
     [VersionProbe tslint5, VersionProbe tslint5, VersionProbe tslint5]"
  "filter isSendDiagnostics (trace after_a) = [SendDiagnostics uri_a [makeDiagnostic no_var_failure]]"
  "filter isLibraryLoad (trace after_a) =
     [ResolveModule (winpath [''c:'', ''proj'', ''src'']),
      Require (winpath [''c:'', ''proj'', ''node_modules'', ''tslint''])]"
  by (simp_all add: after_a_def run_defs world_defs)

lemma project_uris:
  "Uri_parse project_world uri_a = \<lparr> scheme = ''file'', fsPath = file_a \<rparr>"
  "Uri_parse project_world uri_b = \<lparr> scheme = ''file'', fsPath = file_b \<rparr>"
  "file_a \<noteq> file_b"
  "file_b \<noteq> file_a"
  "path_parse_dir project_world file_a = winpath [''c:'', ''proj'', ''src'']"
  "path_parse_dir project_world file_b = winpath [''c:'', ''proj'', ''src'']"
  by (simp_all add: world_defs Let_def)

section \<open>Claims about the configuration cache\<close>

text \<open>
  Claim C1 as stated fails. The files \<open>a.ts\<close> and \<open>b.ts\<close> lie in the same directory.
  A lint request for \<open>a.ts\<close> has stored the configuration, under the path of
  \<open>a.ts\<close>. The following request for \<open>b.ts\<close> probes the file system again, in the
  directory of the two files and in its parent.
\<close>

theorem sibling_file_walks_again:
  "path_parse_dir project_world file_a = path_parse_dir project_world file_b
   \<and> fsPath (Uri_parse project_world uri_a) = file_a
   \<and> fsPath (Uri_parse project_world uri_b) = file_b
   \<and> document2Configuration after_a file_a = Some (Configuration project_config)
   \<and> filter isExistsSync (trace (snd (onRunTSLintRequest project_world uri_b after_a))) =
       filter isExistsSync (trace after_a) @
       [ExistsSync (winpath [''c:'', ''proj'', ''src'', ''tslint.json'']),
        ExistsSync (winpath [''c:'', ''proj'', ''tslint.json''])]"
  by (simp add: after_a_fields project_uris)
     (simp add: after_a_def run_defs world_defs)

text \<open>
  Claim C1, amended. The configuration cache is keyed by the path of the file, not by
  a directory. A lint request writes no entry but that of its own file, and a request
  that ran the linter leaves an entry for its file. A request for a file that has an
  entry probes the file system not at all. A request for a file without an entry, for
  which a library is found, performs the directory ascent from the directory of the
  file, whatever other files of that directory have entries.
\<close>

theorem configuration_cached_per_file:
  assumes "scheme (Uri_parse w uri) = ''file''"
  shows "(g \<noteq> fsPath (Uri_parse w uri) \<longrightarrow>
            document2Configuration (snd (runTSLint w uri s)) g = document2Configuration s g)
       \<and> (fst (runTSLint w uri s) = Inr (Some failures) \<longrightarrow>
            document2Configuration (snd (runTSLint w uri s)) (fsPath (Uri_parse w uri)) \<noteq> None)
       \<and> (document2Configuration s (fsPath (Uri_parse w uri)) \<noteq> None \<longrightarrow>
            filter isExistsSync (trace (snd (runTSLint w uri s))) = filter isExistsSync (trace s))
       \<and> (document2Configuration s (fsPath (Uri_parse w uri)) = None
            \<and> fst (cachedLibrary w (fsPath (Uri_parse w uri)) s) = Inr (Some library) \<longrightarrow>
            filter isExistsSync (trace (snd (runTSLint w uri s))) =
              filter isExistsSync (trace s) @
              map (\<lambda>dir. ExistsSync (configPath w dir))
                (upToFirst (hasConfig w)
                   (ancestry (path_sep w) (path_parse_dir w (fsPath (Uri_parse w uri)))))
            \<and> upToFirst (hasConfig w)
                 (ancestry (path_sep w) (path_parse_dir w (fsPath (Uri_parse w uri)))) \<noteq> [])"
proof (intro conjI impI)
  assume "g \<noteq> fsPath (Uri_parse w uri)"
  then show "document2Configuration (snd (runTSLint w uri s)) g = document2Configuration s g"
    by (rule runTSLint_config_other)
next
  assume "fst (runTSLint w uri s) = Inr (Some failures)"
  then show "document2Configuration (snd (runTSLint w uri s)) (fsPath (Uri_parse w uri)) \<noteq> None"
    by (rule runTSLint_config_stored)
next
  assume "document2Configuration s (fsPath (Uri_parse w uri)) \<noteq> None"
  then show "filter isExistsSync (trace (snd (runTSLint w uri s))) = filter isExistsSync (trace s)"
    by (simp add: runTSLint_probes [OF assms] split: sum.splits option.splits)
next
  assume "document2Configuration s (fsPath (Uri_parse w uri)) = None
          \<and> fst (cachedLibrary w (fsPath (Uri_parse w uri)) s) = Inr (Some library)"
  then show "filter isExistsSync (trace (snd (runTSLint w uri s))) =
              filter isExistsSync (trace s) @
              map (\<lambda>dir. ExistsSync (configPath w dir))
                (upToFirst (hasConfig w)
                   (ancestry (path_sep w) (path_parse_dir w (fsPath (Uri_parse w uri)))))"
    by (simp add: runTSLint_probes [OF assms])
next
  show "upToFirst (hasConfig w)
          (ancestry (path_sep w) (path_parse_dir w (fsPath (Uri_parse w uri)))) \<noteq> []"
    by (rule upToFirst_ancestry_not_Nil)
qed

text \<open>
  Claim C1, amended, on the project: after the request for \<open>a.ts\<close>, a second request
  for \<open>a.ts\<close> probes nothing and leaves \<open>b.ts\<close> without an entry; a request for
  \<open>b.ts\<close> finds the library and walks from the directory of the two files.
\<close>

theorem configuration_cached_per_file_witness:
  "scheme (Uri_parse project_world uri_a) = ''file''
   \<and> document2Configuration after_a (fsPath (Uri_parse project_world uri_a)) =
       Some (Configuration project_config)
   \<and> filter isExistsSync (trace (snd (runTSLint project_world uri_a after_a))) =
       filter isExistsSync (trace after_a)
   \<and> document2Configuration (snd (runTSLint project_world uri_a after_a)) file_b = None
   \<and> scheme (Uri_parse project_world uri_b) = ''file''
   \<and> document2Configuration after_a (fsPath (Uri_parse project_world uri_b)) = None
   \<and> fst (cachedLibrary project_world (fsPath (Uri_parse project_world uri_b)) after_a) =
       Inr (Some tslint5)
   \<and> filter isExistsSync (trace (snd (runTSLint project_world uri_b after_a))) =
       filter isExistsSync (trace after_a) @
       [ExistsSync (winpath [''c:'', ''proj'', ''src'', ''tslint.json'']),
        ExistsSync (winpath [''c:'', ''proj'', ''tslint.json''])]"
proof -
  have lib: "fst (cachedLibrary project_world file_b after_a) = Inr (Some tslint5)"
    by (simp add: cachedLibrary_def loadLibrary_def resolveTslintPath_def awaitResolver_def
        Let_def after_a_fields world_defs)
  have walk: "map (\<lambda>dir. ExistsSync (configPath project_world dir))
                (upToFirst (hasConfig project_world)
                   (ancestry (path_sep project_world) (path_parse_dir project_world file_b))) =
              [ExistsSync (winpath [''c:'', ''proj'', ''src'', ''tslint.json'']),
               ExistsSync (winpath [''c:'', ''proj'', ''tslint.json''])]"
    by (simp add: ancestry_def hasConfig_def configPath_def world_defs Let_def)
  show ?thesis
    using configuration_cached_per_file
            [where w = project_world and uri = uri_a and s = after_a and g = file_b]
          configuration_cached_per_file
            [where w = project_world and uri = uri_b and s = after_a and library = tslint5]
          lib walk
    by (simp add: after_a_fields project_uris)
qed

section \<open>Claims about the generation of a loaded library\<close>

text \<open>
  Claim C2 as stated fails. After the first request for \<open>a.ts\<close> the library is loaded
  and held by both library caches, and the version probe has already run three times.
  A second request for the same file runs the probe two more times, and a request for
  \<open>b.ts\<close>, which resolves to the same library, three more times.
\<close>

theorem version_probe_repeated_for_loaded_library:
  "document2Library after_a file_a = Some tslint5
   \<and> path2Library after_a (winpath [''c:'', ''proj'', ''node_modules'', ''tslint'']) = Some tslint5
   \<and> filter isVersionProbe (trace after_a) =
       [VersionProbe tslint5, VersionProbe tslint5, VersionProbe tslint5]
   \<and> filter isVersionProbe (trace (snd (onRunTSLintRequest project_world uri_a after_a))) =
       filter isVersionProbe (trace after_a) @ [VersionProbe tslint5, VersionProbe tslint5]
   \<and> filter isVersionProbe (trace (snd (onRunTSLintRequest project_world uri_b after_a))) =
       filter isVersionProbe (trace after_a) @
       [VersionProbe tslint5, VersionProbe tslint5, VersionProbe tslint5]"
  by (simp add: after_a_fields)
     (simp add: after_a_def run_defs world_defs)

text \<open>
  Claim C2, amended. The generation of a library is stored nowhere and is derived again
  at every use, also for a library that both library caches hold already. A lint
  invocation executes the version probe, for the library the file resolves to, once
  when the directory ascent has found a configuration file and the file is about to be
  loaded, and twice when it starts the lint pass for a document of the store, whether
  the library's lint call then returns or throws. An invocation that ends before these
  points (the URI is not a file, no library is obtained, no configuration is cached or
  found, the store does not hold the document) executes no probe there. The probe reads
  the library only, so it gives the same classification before and after the
  invocation.
\<close>

theorem version_probe_runs_at_every_use:
  "filter isVersionProbe (trace (snd (runTSLint w uri s))) =
     filter isVersionProbe (trace s) @
     (if scheme (Uri_parse w uri) \<noteq> ''file'' then []
      else
        (case fst (cachedLibrary w (fsPath (Uri_parse w uri)) s) of
           Inl e \<Rightarrow> []
         | Inr None \<Rightarrow> []
         | Inr (Some library) \<Rightarrow>
             (case document2Configuration s (fsPath (Uri_parse w uri)) of
                Some configuration \<Rightarrow>
                  (if documents (snd (cachedLibrary w (fsPath (Uri_parse w uri)) s)) uri = None
                   then []
                   else [VersionProbe library, VersionProbe library])
              | None \<Rightarrow>
                  (case find (hasConfig w)
                          (ancestry (path_sep w) (path_parse_dir w (fsPath (Uri_parse w uri)))) of
                     None \<Rightarrow> []
                   | Some dir \<Rightarrow>
                       VersionProbe library #
                       (case loadConfigurationFromPath w (linterOf w library) (configPath w dir) of
                          Inl e \<Rightarrow> []
                        | Inr configuration \<Rightarrow>
                            (if documents (snd (cachedLibrary w (fsPath (Uri_parse w uri)) s)) uri
                                = None
                             then []
                             else [VersionProbe library, VersionProbe library]))))))
   \<and> fst (call_isTsLintVersion4 w lib (snd (runTSLint w uri s))) =
       fst (call_isTsLintVersion4 w lib s)"
proof -
  define f where "f = fsPath (Uri_parse w uri)"
  define sL where "sL = snd (cachedLibrary w f s)"
  have same: "fst (call_isTsLintVersion4 w lib (snd (runTSLint w uri s))) =
              fst (call_isTsLintVersion4 w lib s)"
    by (simp add: call_isTsLintVersion4_def)
  have quiet: "filter isVersionProbe (trace sL) = filter isVersionProbe (trace s)"
    unfolding sL_def by (rule cachedLibrary_filter) simp_all
  have conf_sL: "document2Configuration sL f = document2Configuration s f"
    by (simp add: sL_def)
  have probes: "filter isVersionProbe (trace (snd (runTSLint w uri s))) =
     filter isVersionProbe (trace s) @
     (if scheme (Uri_parse w uri) \<noteq> ''file'' then []
      else
        (case fst (cachedLibrary w f s) of
           Inl e \<Rightarrow> []
         | Inr None \<Rightarrow> []
         | Inr (Some library) \<Rightarrow>
             (case document2Configuration s f of
                Some configuration \<Rightarrow>
                  (if documents sL uri = None then []
                   else [VersionProbe library, VersionProbe library])
              | None \<Rightarrow>
                  (case find (hasConfig w) (ancestry (path_sep w) (path_parse_dir w f)) of
                     None \<Rightarrow> []
                   | Some dir \<Rightarrow>
                       VersionProbe library #
                       (case loadConfigurationFromPath w (linterOf w library) (configPath w dir) of
                          Inl e \<Rightarrow> []
                        | Inr configuration \<Rightarrow>
                            (if documents sL uri = None then []
                             else [VersionProbe library, VersionProbe library]))))))"
  proof (cases "scheme (Uri_parse w uri) = ''file''")
    case False
    then show ?thesis by (simp add: runTSLint_not_file)
  next
    case True
    note run = runTSLint_file [OF True, of s, folded f_def, folded sL_def]
    show ?thesis
    proof (cases "fst (cachedLibrary w f s)")
      case (Inl e)
      then show ?thesis using True by (simp add: run quiet)
    next
      case (Inr found)
      show ?thesis
      proof (cases found)
        case None
        then show ?thesis using True Inr by (simp add: run quiet)
      next
        case (Some library)
        note lib = Inr [unfolded Some]
        show ?thesis
        proof (cases "document2Configuration s f")
          case (Some c)
          have "cachedConfiguration w f library sL = (Inr (Some c), sL)"
            by (rule cachedConfiguration_hit) (simp add: conf_sL Some)
          then show ?thesis
            using True lib Some by (simp add: run quiet lintDocument_trace)
        next
          case None
          have miss: "document2Configuration sL f = None"
            by (simp add: conf_sL None)
          note result = cachedConfiguration_miss_result [OF miss, of w library]
          have trace_sC: "filter isVersionProbe (trace (snd (cachedConfiguration w f library sL))) =
              filter isVersionProbe (trace s) @
              (case find (hasConfig w) (ancestry (path_sep w) (path_parse_dir w f)) of
                 None \<Rightarrow> [] | Some dir \<Rightarrow> [VersionProbe library])"
            by (simp add: cachedConfiguration_trace miss quiet split: option.splits)
          show ?thesis
          proof (cases "find (hasConfig w) (ancestry (path_sep w) (path_parse_dir w f))")
            case None
            from result have "fst (cachedConfiguration w f library sL) = Inr None"
              by (simp add: None)
            then show ?thesis
              using True lib \<open>document2Configuration s f = None\<close> None trace_sC
              by (simp add: run)
          next
            case (Some dir)
            show ?thesis
            proof (cases "loadConfigurationFromPath w (linterOf w library) (configPath w dir)")
              case (Inl e)
              from result have "fst (cachedConfiguration w f library sL) = Inl e"
                by (simp add: Some Inl)
              then show ?thesis
                using True lib \<open>document2Configuration s f = None\<close> Some Inl trace_sC
                by (simp add: run)
            next
              case (Inr c)
              from result have "fst (cachedConfiguration w f library sL) = Inr (Some c)"
                by (simp add: Some Inr)
              then show ?thesis
                using True lib \<open>document2Configuration s f = None\<close> Some Inr trace_sC
                by (simp add: run lintDocument_trace)
            qed
          qed
        qed
      qed
    qed
  qed
  from probes [unfolded sL_def f_def] same show ?thesis
    by (rule conjI)
qed

text \<open>
  Claim C2, amended, on the project. The second request for \<open>a.ts\<close>, with library
  and configuration cached, executes the probe twice. A first request in the project
  without a configuration file loads the library and executes no probe. A first request
  whose lint pass throws executes it three times.
\<close>

theorem version_probe_runs_at_every_use_witness:
  "filter isVersionProbe (trace (snd (runTSLint project_world uri_a after_a))) =
     filter isVersionProbe (trace after_a) @ [VersionProbe tslint5, VersionProbe tslint5]
   \<and> filter isLibraryLoad (trace (snd (runTSLint unconfigured_world uri_a started))) =
       [ResolveModule (winpath [''c:'', ''proj'', ''src'']),
        Require (winpath [''c:'', ''proj'', ''node_modules'', ''tslint''])]
   \<and> filter isVersionProbe (trace (snd (runTSLint unconfigured_world uri_a started))) = []
   \<and> fst (runTSLint throwing_world uri_a started) = Inl LibraryError
   \<and> filter isVersionProbe (trace (snd (runTSLint throwing_world uri_a started))) =
       [VersionProbe tslint5, VersionProbe tslint5, VersionProbe tslint5]"
proof -
  have cached: "fst (cachedLibrary project_world file_a after_a) = Inr (Some tslint5)"
    "documents (snd (cachedLibrary project_world file_a after_a)) uri_a = Some 0"
    by (simp_all add: cachedLibrary_def after_a_fields) (simp add: world_defs)
  have loads: "filter isLibraryLoad (trace (snd (runTSLint unconfigured_world uri_a started))) =
       [ResolveModule (winpath [''c:'', ''proj'', ''src'']),
        Require (winpath [''c:'', ''proj'', ''node_modules'', ''tslint''])]"
    by (simp add: unconfigured_world_def run_defs world_defs)
  have thrown: "fst (runTSLint throwing_world uri_a started) = Inl LibraryError"
    by (simp add: throwing_world_def run_defs world_defs)
  have rhs_none:
    "fst (cachedLibrary unconfigured_world (fsPath (Uri_parse unconfigured_world uri_a)) started)
       = Inr (Some tslint5)"
    "find (hasConfig unconfigured_world)
       (ancestry (path_sep unconfigured_world)
          (path_parse_dir unconfigured_world (fsPath (Uri_parse unconfigured_world uri_a)))) = None"
    "scheme (Uri_parse unconfigured_world uri_a) = ''file''"
    "document2Configuration started (fsPath (Uri_parse unconfigured_world uri_a)) = None"
    "trace started = []"
    by (simp_all add: unconfigured_world_def run_defs world_defs)
  have rhs_throw:
    "fst (cachedLibrary throwing_world (fsPath (Uri_parse throwing_world uri_a)) started)
       = Inr (Some tslint5)"
    "documents (snd (cachedLibrary throwing_world (fsPath (Uri_parse throwing_world uri_a)) started))
       uri_a = Some 0"
    "find (hasConfig throwing_world)
       (ancestry (path_sep throwing_world)
          (path_parse_dir throwing_world (fsPath (Uri_parse throwing_world uri_a)))) =
     Some (winpath [''c:'', ''proj''])"
    "scheme (Uri_parse throwing_world uri_a) = ''file''"
    "document2Configuration started (fsPath (Uri_parse throwing_world uri_a)) = None"
    "loadConfigurationFromPath throwing_world (linterOf throwing_world tslint5)
       (configPath throwing_world (winpath [''c:'', ''proj''])) =
     Inr (Configuration project_config)"
    by (simp_all add: throwing_world_def run_defs world_defs)
  show ?thesis
    using version_probe_runs_at_every_use [of project_world uri_a after_a]
      version_probe_runs_at_every_use [of unconfigured_world uri_a started]
      version_probe_runs_at_every_use [of throwing_world uri_a started]
      cached loads thrown
    by (simp add: rhs_none rhs_throw after_a_fields project_uris)
qed

text \<open>
  Claim C9. A configuration-change notification empties the configuration cache and
  changes nothing else of the server's state: the two library caches and the document
  store are as before, and the only effect outside is one line on the process's console
  for each changed URI. A lint request that follows, for a file whose library is
  cached, calls neither the module resolver nor \<open>require\<close> and leaves the library
  caches as they were before the notification, but walks the directories again and
  loads the configuration again where it finds one.
\<close>

theorem configuration_change_clears_configuration_cache_only:
  "document2Configuration (onDidChangeWatchedFiles changes s) = Map.empty
   \<and> document2Library (onDidChangeWatchedFiles changes s) = document2Library s
   \<and> path2Library (onDidChangeWatchedFiles changes s) = path2Library s
   \<and> documents (onDidChangeWatchedFiles changes s) = documents s
   \<and> objects (onDidChangeWatchedFiles changes s) = objects s
   \<and> trace (onDidChangeWatchedFiles changes s) =
       trace s @ map (\<lambda>uri. StdoutLog (''Detect tslint.json file change '' @ uri)) changes
   \<and> (scheme (Uri_parse w uri) = ''file''
        \<and> document2Library s (fsPath (Uri_parse w uri)) = Some library \<longrightarrow>
       filter isLibraryLoad (trace (snd (runTSLint w uri (onDidChangeWatchedFiles changes s)))) =
         filter isLibraryLoad (trace s)
       \<and> document2Library (snd (runTSLint w uri (onDidChangeWatchedFiles changes s))) =
           document2Library s
       \<and> path2Library (snd (runTSLint w uri (onDidChangeWatchedFiles changes s))) =
           path2Library s
       \<and> filter isExistsSync (trace (snd (runTSLint w uri (onDidChangeWatchedFiles changes s)))) =
           filter isExistsSync (trace s) @
           map (\<lambda>dir. ExistsSync (configPath w dir))
             (upToFirst (hasConfig w)
                (ancestry (path_sep w) (path_parse_dir w (fsPath (Uri_parse w uri)))))
       \<and> upToFirst (hasConfig w)
            (ancestry (path_sep w) (path_parse_dir w (fsPath (Uri_parse w uri)))) \<noteq> []
       \<and> filter isLoadConfiguration
            (trace (snd (runTSLint w uri (onDidChangeWatchedFiles changes s)))) =
           filter isLoadConfiguration (trace s) @
           (case find (hasConfig w)
                   (ancestry (path_sep w) (path_parse_dir w (fsPath (Uri_parse w uri)))) of
              None \<Rightarrow> []
            | Some dir \<Rightarrow> [LoadConfiguration (configPath w dir)]))"
proof -
  define s1 where "s1 = onDidChangeWatchedFiles changes s"
  have fields:
    "document2Configuration s1 = Map.empty" "document2Library s1 = document2Library s"
    "path2Library s1 = path2Library s" "documents s1 = documents s" "objects s1 = objects s"
    "trace s1 = trace s @ map (\<lambda>uri. StdoutLog (''Detect tslint.json file change '' @ uri)) changes"
    unfolding s1_def by (rule onDidChangeWatchedFiles_fields)+
  have logs: "filter isLibraryLoad (trace s1) = filter isLibraryLoad (trace s)"
    "filter isExistsSync (trace s1) = filter isExistsSync (trace s)"
    "filter isLoadConfiguration (trace s1) = filter isLoadConfiguration (trace s)"
    unfolding fields(6) by (induction changes) simp_all
  have after: "filter isLibraryLoad (trace (snd (runTSLint w uri s1))) = filter isLibraryLoad (trace s)
       \<and> document2Library (snd (runTSLint w uri s1)) = document2Library s
       \<and> path2Library (snd (runTSLint w uri s1)) = path2Library s
       \<and> filter isExistsSync (trace (snd (runTSLint w uri s1))) =
           filter isExistsSync (trace s) @
           map (\<lambda>dir. ExistsSync (configPath w dir))
             (upToFirst (hasConfig w)
                (ancestry (path_sep w) (path_parse_dir w (fsPath (Uri_parse w uri)))))
       \<and> filter isLoadConfiguration (trace (snd (runTSLint w uri s1))) =
           filter isLoadConfiguration (trace s) @
           (case find (hasConfig w)
                   (ancestry (path_sep w) (path_parse_dir w (fsPath (Uri_parse w uri)))) of
              None \<Rightarrow> []
            | Some dir \<Rightarrow> [LoadConfiguration (configPath w dir)])"
    if isfile: "scheme (Uri_parse w uri) = ''file''"
      and cached: "document2Library s (fsPath (Uri_parse w uri)) = Some library"
  proof -
    have lib1: "document2Library s1 (fsPath (Uri_parse w uri)) = Some library"
      using cached by (simp add: fields)
    have conf1: "document2Configuration s1 (fsPath (Uri_parse w uri)) = None"
      by (simp add: fields)
    have hit: "fst (cachedLibrary w (fsPath (Uri_parse w uri)) s1) = Inr (Some library)"
      using lib1 by (simp add: cachedLibrary_hit)
    show ?thesis
      using runTSLint_library_reused [OF isfile lib1]
        runTSLint_probes [OF isfile, of s1]
        runTSLint_configuration_loads [OF isfile lib1 conf1]
      by (simp add: hit conf1 logs fields)
  qed
  show ?thesis
    using after fields upToFirst_ancestry_not_Nil
    by (simp add: s1_def [symmetric])
qed

text \<open>
  Claim C9 on the project: after the first request for \<open>a.ts\<close> the configuration file
  changes. The configuration cache is then empty and the library of \<open>a.ts\<close> is still
  cached; the next request for \<open>a.ts\<close> loads no library, probes the two directories
  again and loads the configuration again.
\<close>

theorem configuration_change_clears_configuration_cache_only_witness:
  "document2Configuration after_a file_a = Some (Configuration project_config)
   \<and> document2Configuration (onDidChangeWatchedFiles [''file:///c:/proj/tslint.json''] after_a)
       = Map.empty
   \<and> scheme (Uri_parse project_world uri_a) = ''file''
   \<and> document2Library after_a (fsPath (Uri_parse project_world uri_a)) = Some tslint5
   \<and> document2Library
         (snd (runTSLint project_world uri_a
                 (onDidChangeWatchedFiles [''file:///c:/proj/tslint.json''] after_a)))
       = [file_a \<mapsto> tslint5]
   \<and> filter isLibraryLoad
         (trace (snd (runTSLint project_world uri_a
                        (onDidChangeWatchedFiles [''file:///c:/proj/tslint.json''] after_a))))
       = filter isLibraryLoad (trace after_a)
   \<and> filter isExistsSync
         (trace (snd (runTSLint project_world uri_a
                        (onDidChangeWatchedFiles [''file:///c:/proj/tslint.json''] after_a))))
       = filter isExistsSync (trace after_a) @
         [ExistsSync (winpath [''c:'', ''proj'', ''src'', ''tslint.json'']),
          ExistsSync (winpath [''c:'', ''proj'', ''tslint.json''])]
   \<and> filter isLoadConfiguration
         (trace (snd (runTSLint project_world uri_a
                        (onDidChangeWatchedFiles [''file:///c:/proj/tslint.json''] after_a))))
       = filter isLoadConfiguration (trace after_a) @
         [LoadConfiguration (winpath [''c:'', ''proj'', ''tslint.json''])]"
proof -
  have walk: "map (\<lambda>dir. ExistsSync (configPath project_world dir))
                (upToFirst (hasConfig project_world)
                   (ancestry (path_sep project_world) (path_parse_dir project_world file_a))) =
              [ExistsSync (winpath [''c:'', ''proj'', ''src'', ''tslint.json'']),
               ExistsSync (winpath [''c:'', ''proj'', ''tslint.json''])]"
    "find (hasConfig project_world)
       (ancestry (path_sep project_world) (path_parse_dir project_world file_a)) =
     Some (winpath [''c:'', ''proj''])"
    "configPath project_world (winpath [''c:'', ''proj'']) = winpath [''c:'', ''proj'', ''tslint.json'']"
    by (simp_all add: ancestry_def hasConfig_def configPath_def world_defs Let_def)
  show ?thesis
    using configuration_change_clears_configuration_cache_only
            [where w = project_world and uri = uri_a and s = after_a and library = tslint5
               and changes = "[''file:///c:/proj/tslint.json'']"]
          walk
    by (simp add: after_a_fields project_uris)
qed

section \<open>Claims about the two requests\<close>

text \<open>
  Claim C10 as stated fails. The document is open, the library and the configuration
  are found, and the lint pass of the library throws. The exception leaves the run
  handler before it reaches the diagnostics notification: the request fails and no
  diagnostics event is emitted.
\<close>

theorem no_diagnostics_event_when_lint_throws:
  "fst (onRunTSLintRequest throwing_world uri_a started) = Inl LibraryError
   \<and> filter isSendDiagnostics (trace (snd (onRunTSLintRequest throwing_world uri_a started))) = []"
  by (simp add: throwing_world_def run_defs world_defs)

text \<open>
  Claim C10, amended. Every run request that returns emits exactly one diagnostics
  event, for the requested URI, as the last effect of the request. The event carries
  the diagnostics of the failures when the lint pass ran, and the empty list when the
  lint run gave no result: when the scheme of the URI is not the file scheme, when the
  file has no cached library and loading gives none, and when the file has no cached
  configuration and the directory ascent finds none. A request that fails with an
  exception, as when the library throws during the lint pass, emits no diagnostics
  event.
\<close>

theorem run_request_sends_diagnostics_once:
  "(fst (onRunTSLintRequest w uri s) = Inr () \<longrightarrow>
      filter isSendDiagnostics (trace (snd (onRunTSLintRequest w uri s))) =
        filter isSendDiagnostics (trace s) @
        [SendDiagnostics uri
           (case fst (runTSLint w uri s) of
              Inr (Some failures) \<Rightarrow> map makeDiagnostic failures
            | _ \<Rightarrow> [])]
      \<and> last (trace (snd (onRunTSLintRequest w uri s))) =
          SendDiagnostics uri
           (case fst (runTSLint w uri s) of
              Inr (Some failures) \<Rightarrow> map makeDiagnostic failures
            | _ \<Rightarrow> []))
   \<and> (fst (onRunTSLintRequest w uri s) \<noteq> Inr () \<longrightarrow>
      filter isSendDiagnostics (trace (snd (onRunTSLintRequest w uri s))) =
        filter isSendDiagnostics (trace s))
   \<and> (fst (onRunTSLintRequest w uri s) = Inr ()) = (\<exists>r. fst (runTSLint w uri s) = Inr r)
   \<and> (scheme (Uri_parse w uri) \<noteq> ''file'' \<longrightarrow> fst (runTSLint w uri s) = Inr None)
   \<and> (scheme (Uri_parse w uri) = ''file''
       \<and> document2Library s (fsPath (Uri_parse w uri)) = None
       \<and> fst (loadLibrary w (fsPath (Uri_parse w uri)) s) = Inr None \<longrightarrow>
       fst (runTSLint w uri s) = Inr None)
   \<and> (scheme (Uri_parse w uri) = ''file''
       \<and> fst (cachedLibrary w (fsPath (Uri_parse w uri)) s) = Inr (Some library)
       \<and> document2Configuration s (fsPath (Uri_parse w uri)) = None
       \<and> find (hasConfig w) (ancestry (path_sep w) (path_parse_dir w (fsPath (Uri_parse w uri))))
           = None \<longrightarrow>
       fst (runTSLint w uri s) = Inr None)"
proof -
  have quiet: "filter isSendDiagnostics (trace (snd (runTSLint w uri s))) =
               filter isSendDiagnostics (trace s)"
    by (rule runTSLint_filter) simp_all
  have handler:
    "(fst (onRunTSLintRequest w uri s) = Inr () \<longrightarrow>
      filter isSendDiagnostics (trace (snd (onRunTSLintRequest w uri s))) =
        filter isSendDiagnostics (trace s) @
        [SendDiagnostics uri
           (case fst (runTSLint w uri s) of
              Inr (Some failures) \<Rightarrow> map makeDiagnostic failures
            | _ \<Rightarrow> [])]
      \<and> last (trace (snd (onRunTSLintRequest w uri s))) =
          SendDiagnostics uri
           (case fst (runTSLint w uri s) of
              Inr (Some failures) \<Rightarrow> map makeDiagnostic failures
            | _ \<Rightarrow> []))
   \<and> (fst (onRunTSLintRequest w uri s) \<noteq> Inr () \<longrightarrow>
      filter isSendDiagnostics (trace (snd (onRunTSLintRequest w uri s))) =
        filter isSendDiagnostics (trace s))
   \<and> (fst (onRunTSLintRequest w uri s) = Inr ()) = (\<exists>r. fst (runTSLint w uri s) = Inr r)"
    using quiet
    by (cases "fst (runTSLint w uri s)")
       (auto simp: onRunTSLintRequest_def case_prod_unfold pushDiagnostics_map Let_def
          split: sum.splits option.splits)
  show ?thesis
    using handler runTSLint_null [of w uri] runTSLint_null(3) [of w uri s library]
    by blast
qed

text \<open>
  Claim C10, amended, on the project without a configuration file, and for a URI that
  is not a file: the request returns and its one diagnostics event carries no
  diagnostics.
\<close>

theorem run_request_sends_diagnostics_once_witness:
  "fst (onRunTSLintRequest unconfigured_world uri_a started) = Inr ()
   \<and> fst (runTSLint unconfigured_world uri_a started) = Inr None
   \<and> filter isSendDiagnostics (trace (snd (onRunTSLintRequest unconfigured_world uri_a started)))
       = [SendDiagnostics uri_a []]
   \<and> scheme (Uri_parse project_world ''untitled:Untitled-1'') \<noteq> ''file''
   \<and> fst (onRunTSLintRequest project_world ''untitled:Untitled-1'' started) = Inr ()
   \<and> filter isSendDiagnostics
         (trace (snd (onRunTSLintRequest project_world ''untitled:Untitled-1'' started)))
       = [SendDiagnostics ''untitled:Untitled-1'' []]"
proof -
  have r1: "fst (runTSLint unconfigured_world uri_a started) = Inr None"
    by (simp add: unconfigured_world_def run_defs world_defs)
  have r2: "scheme (Uri_parse project_world ''untitled:Untitled-1'') \<noteq> ''file''"
    by (simp add: world_defs)
  have t: "trace started = []"
    by (simp add: started_def)
  show ?thesis
    using run_request_sends_diagnostics_once
            [where w = unconfigured_world and uri = uri_a and s = started]
          run_request_sends_diagnostics_once
            [where w = project_world and uri = "''untitled:Untitled-1''" and s = started]
          r1 r2
    by (simp add: t)
qed

text \<open>
  The answer of the fix handler. The handler answers exactly when the store holds the
  document and the lint run returns without an exception. The answer carries the
  version the document had when the request arrived, whatever the editor does to the
  document while the lint run is suspended, and no edits when the lint run gave no
  result.
\<close>

lemma onFixTSLintRequest_response:
  "((\<exists>answer. fst (onFixTSLintRequest w uri s) = Inr answer) =
      (documents s uri \<noteq> None \<and> \<not> isl (fst (runTSLint w uri s))))
   \<and> (fst (onFixTSLintRequest w uri s) = Inr response \<longrightarrow>
        (\<exists>document. documents s uri = Some document
           \<and> documentVersion response = version (objects s document)
           \<and> (fst (runTSLint w uri s) = Inr None \<longrightarrow> edits response = [])))"
proof (cases "documents s uri")
  case None
  then show ?thesis by (simp add: onFixTSLintRequest_def)
next
  case (Some document)
  show ?thesis
  proof (cases "fst (runTSLint w uri s)")
    case (Inl e)
    then show ?thesis using Some
      by (simp add: onFixTSLintRequest_def case_prod_unfold Let_def)
  next
    case (Inr r)
    then show ?thesis using Some
      by (cases r) (auto simp: onFixTSLintRequest_def case_prod_unfold Let_def)
  qed
qed

text \<open>
  On the project: while the first fix request for \<open>a.ts\<close> awaits the module resolver
  the user edits the document. The answer carries version 1, the version at the time of
  the request, and the document of the store has version 2 afterwards. Without a
  configuration file the answer is version 1 and no edits.
\<close>

lemma onFixTSLintRequest_on_project:
  "documents started uri_a = Some 0
   \<and> version (objects started 0) = 1
   \<and> version (objects (snd (onFixTSLintRequest editing_world uri_a started)) 0) = 2
   \<and> documentVersion (projr (fst (onFixTSLintRequest editing_world uri_a started))) = 1
   \<and> fst (onFixTSLintRequest unconfigured_world uri_a started) =
       Inr \<lparr> documentVersion = 1, edits = [] \<rparr>"
  by (simp add: onFixTSLintRequest_def editing_world_def unconfigured_world_def run_defs
      world_defs)

text \<open>
  Claim C4, at the input where the code departs from it. The document \<open>a.ts\<close> is
  open, its URI is a file, and tslint is installed nowhere: each of the three
  resolution strategies rejects. No library is found, and the claim has the fix request
  answered with the version of the document and no edits, as the handler does when the
  resolver gives no path. The rejection of the third strategy has no handler: it leaves
  \<open>loadLibrary\<close> before the test of the path, \<open>runTSLint\<close> before it logs that the module
  was not found, and the fix handler before it answers. The request fails with the
  rejection and there is no response.
\<close>

theorem fix_request_fails_when_resolution_rejects:
  "documents started uri_a = Some 0
   \<and> scheme (Uri_parse uninstalled_world uri_a) = ''file''
   \<and> path_dirname uninstalled_world (fsPath (Uri_parse uninstalled_world uri_a)) =
       winpath [''c:'', ''proj'', ''src'']
   \<and> Files_resolve_local uninstalled_world (winpath [''c:'', ''proj'', ''src'']) = Rejected
   \<and> Files_resolve_globalNode uninstalled_world (winpath [''c:'', ''proj'', ''src'']) = Rejected
   \<and> Files_resolve_globalYarn uninstalled_world (winpath [''c:'', ''proj'', ''src'']) = Rejected
   \<and> fst (onFixTSLintRequest uninstalled_world uri_a started) = Inl ModuleNotResolved
   \<and> trace (snd (onFixTSLintRequest uninstalled_world uri_a started)) =
       [ResolveModule (winpath [''c:'', ''proj'', ''src'']),
        ResolveModule (winpath [''c:'', ''proj'', ''src'']),
        ResolveModule (winpath [''c:'', ''proj'', ''src''])]"
  by (simp add: onFixTSLintRequest_def uninstalled_world_def run_defs world_defs)

end
